theory Spec2Isabelle
  imports Main "HOL-Library.Multiset"
begin

section \<open>Root password rotation: data model\<close>

text \<open>
  The development follows \<^verbatim>\<open>rotation.py\<close> (class \<^verbatim>\<open>Rotation\<close>), with the logger of
  \<^verbatim>\<open>custom_log.py\<close>. Everything the program does to the outside world (SSH sessions,
  database statements, mail submissions, sleeps, log lines) is recorded, in program order,
  in the field \<open>effects\<close>; the answers of the outside world are parameters.

  Exceptions are values. The source has no \<^verbatim>\<open>raise\<close> statement of its own: every exception
  comes out of a library call, or out of indexing and the membership test on a value that
  is \<^verbatim>\<open>None\<close>. \<^verbatim>\<open>except Exception\<close> catches each of the exceptions below;
  \<^verbatim>\<open>except paramiko.AuthenticationException\<close> catches \<open>AuthenticationException\<close> only.
\<close>

type_synonym host = string
type_synonym secret = string

datatype exn =
    AuthenticationException
  | SSHException
  | SocketError
  | KeyError
  | TypeError
  | FileNotFoundError
  | SMTPException
  | OperationalError
  | CryptoError

text \<open>The log lines of the source, one constructor per f-string.\<close>

datatype msg =
    Started_setting host
  | Changed_root_password host
  | Successfully_changed host
  | Error_retrying host int int exn
  | Failed_after_attempts host int exn
  | Started_validating host
  | Validation_failed host exn
  | Failed_store_history exn
  | Failed_update_database host exn
  | Failed_get_history exn
  | Failed_get_current exn
  | Started_alert_mail
  | Sent_alert_mail
  | Failed_alert_mail exn
  | Started_report_mail
  | Sent_report_mail
  | Failed_report_mail exn

datatype mail =
    AlertMail host exn
  | ReportMail string string

datatype event =
    FileLog host msg
  | DbLog host msg
  | SshConnect host secret
  | SshConnectStored host string
  | ExecChange host secret
  | SshClose host
  | Sleep nat
  | SmtpSubmit mail
  | SelectHistory
  | SelectCurrent
  | InsertCurrent host string secret
  | InsertHistory host secret
  | ThreadStart host secret

text \<open>
  The object: the configuration read in \<^verbatim>\<open>__init__\<close>, the two result lists, and the
  effects so far. \<^verbatim>\<open>get_old_password\<close> returns a dictionary or, after a database error,
  \<^verbatim>\<open>None\<close>; hence the option around the map.
\<close>

record rotation =
  password_length :: int
  max_attempts :: int
  old_passwords :: "(host \<rightharpoonup> string) option"
  new_password_generated :: secret
  password_change_success_host_list :: "host list"
  password_change_fail_host_list :: "host list"
  effects :: "event list"

text \<open>
  What the outside world answers during one pass of the loop of \<^verbatim>\<open>set_root_password\<close>:
  for each library call that can fail, \<open>None\<close> when it returns and \<open>Some e\<close> when it
  raises \<open>e\<close>.
\<close>

record io =
  decrypt_stored :: "exn option"
  ssh_connect :: "exn option"
  ssh_change :: "exn option"
  verify_connect :: "exn option"
  encrypt_new :: "exn option"
  db_update :: "exn option"
  db_history :: "exn option"
  alert_template :: "exn option"
  alert_smtp :: "exn option"

text \<open>What the outside world answers while the object is built.\<close>

record startup =
  conf_password_length :: int
  conf_max_attempts :: int
  conf_failure :: "exn option"
  select_current :: "exn + (host \<times> string) list"
  select_history :: "exn + secret list"
  randbelow :: "nat \<Rightarrow> nat"

section \<open>Logging\<close>

definition emit :: "event \<Rightarrow> rotation \<Rightarrow> rotation" where
  "emit e r = r\<lparr>effects := effects r @ [e]\<rparr>"

text \<open>
  \<^verbatim>\<open>CustomLogger._log\<close> passes \<^verbatim>\<open>extra = {'hostname': hostname} if hostname else {}\<close>. The
  format string of the handler needs \<^verbatim>\<open>%(hostname)s\<close>: for an empty hostname (a blank line
  of the hosts file) formatting the record fails inside the handler, which reports the
  error on its own and drops the record. The call returns, and no line is written.
  \<open>log_line\<close> is what reaches the log file for one call.
\<close>

definition log_line :: "host \<Rightarrow> msg \<Rightarrow> event list" where
  "log_line hostname message = (if hostname = [] then [] else [FileLog hostname message])"

definition file_log :: "msg \<Rightarrow> host \<Rightarrow> rotation \<Rightarrow> rotation" where
  "file_log message hostname r = r\<lparr>effects := effects r @ log_line hostname message\<rparr>"

text \<open>
  \<^verbatim>\<open>CustomLogger.db_log\<close> catches every exception of its own insert and writes a file log
  line instead, so it never raises; the effect recorded is the request.
\<close>

definition db_log :: "msg \<Rightarrow> host \<Rightarrow> rotation \<Rightarrow> rotation" where
  "db_log message hostname r = emit (DbLog hostname message) r"

section \<open>Password generator\<close>

definition characters :: string where
  "characters = ''abcdefghijklmnopqrstuvwxyzABCDEFGHIJKLMNOPQRSTUVWXYZ0123456789!@#$''"

text \<open>
  \<^verbatim>\<open>get_password_history\<close>: the select and the decryption of its rows are inside one
  \<^verbatim>\<open>try\<close>; the handler logs and falls off the end of the function, which returns
  \<^verbatim>\<open>None\<close>.
\<close>

definition get_password_history :: "startup \<Rightarrow> rotation \<Rightarrow> secret list option \<times> rotation" where
  "get_password_history env r =
     (let r1 = emit SelectHistory r in
      case select_history env of
        Inr password_history_list_decrypted \<Rightarrow> (Some password_history_list_decrypted, r1)
      | Inl error \<Rightarrow> (None, file_log (Failed_get_history error) ''NA'' r1))"

text \<open>
  One candidate: \<^verbatim>\<open>''.join(secrets.choice(characters) for _ in range(pass_len))\<close>.
  \<^verbatim>\<open>secrets.choice(seq)\<close> is \<^verbatim>\<open>seq[randbelow(len(seq))]\<close>; the \<open>k\<close>-th call of
  \<^verbatim>\<open>randbelow(n)\<close> returns a number below \<open>n\<close>, here the \<open>k\<close>-th value of the random
  source reduced modulo \<open>n\<close>. \<open>pos\<close> counts the calls made so far.
\<close>

definition candidate :: "(nat \<Rightarrow> nat) \<Rightarrow> int \<Rightarrow> nat \<Rightarrow> string" where
  "candidate rnd pass_len pos =
     map (\<lambda>j. characters ! (rnd (pos + j) mod length characters)) [0..<nat pass_len]"

text \<open>
  The \<^verbatim>\<open>while True\<close> loop. It may run forever: the value \<open>None\<close> of the outer option
  means that it does not return. The membership test on \<^verbatim>\<open>None\<close> raises \<open>TypeError\<close>.
\<close>

partial_function (option) generate_loop ::
  "(nat \<Rightarrow> nat) \<Rightarrow> secret list option \<Rightarrow> int \<Rightarrow> nat \<Rightarrow> (exn + secret) option" where
  "generate_loop rnd root_pass_history_list pass_len pos =
     (let random_pass = candidate rnd pass_len pos in
      case root_pass_history_list of
        None \<Rightarrow> Some (Inl TypeError)
      | Some history \<Rightarrow>
          if random_pass \<notin> set history then Some (Inr random_pass)
          else generate_loop rnd root_pass_history_list pass_len (pos + nat pass_len))"

definition generate_random_password ::
  "startup \<Rightarrow> rotation \<Rightarrow> int \<Rightarrow> ((exn + secret) \<times> rotation) option" where
  "generate_random_password env r pass_len =
     (let (root_pass_history_list, r1) = get_password_history env r in
      case generate_loop (randbelow env) root_pass_history_list pass_len 0 of
        None \<Rightarrow> None
      | Some res \<Rightarrow> Some (res, r1))"

section \<open>The worker: \<^verbatim>\<open>set_root_password\<close>\<close>

text \<open>\<^verbatim>\<open>self.old_passwords[server]\<close>: \<open>TypeError\<close> on \<^verbatim>\<open>None\<close>, \<open>KeyError\<close> on a missing key.\<close>

definition old_passwords_item :: "rotation \<Rightarrow> host \<Rightarrow> exn + string" where
  "old_passwords_item r server =
     (case old_passwords r of
        None \<Rightarrow> Inl TypeError
      | Some password_dict \<Rightarrow>
          (case password_dict server of None \<Rightarrow> Inl KeyError | Some stored \<Rightarrow> Inr stored))"

text \<open>
  \<^verbatim>\<open>verify_server_login\<close>: a login with the new password. Only
  \<^verbatim>\<open>paramiko.AuthenticationException\<close> is caught (and gives \<^verbatim>\<open>False\<close>); any other
  exception of \<^verbatim>\<open>ssh.connect\<close> leaves the function.
\<close>

definition verify_server_login :: "io \<Rightarrow> host \<Rightarrow> rotation \<Rightarrow> (exn + bool) \<times> rotation" where
  "verify_server_login w server_name r =
     (let r1 = emit (SshConnect server_name (new_password_generated r)) r in
      case verify_connect w of
        None \<Rightarrow>
          (Inr True, db_log (Started_validating server_name) server_name
                       (file_log (Started_validating server_name) server_name r1))
      | Some error \<Rightarrow>
          if error = AuthenticationException
          then (Inr False, db_log (Validation_failed server_name error) server_name
                             (file_log (Validation_failed server_name error) server_name r1))
          else (Inl error, r1))"

text \<open>
  \<^verbatim>\<open>update_password_to_database\<close>: the statement is formatted before the \<^verbatim>\<open>try\<close>
  (the dictionary lookup and \<^verbatim>\<open>credential_encrypter\<close> can raise out of the function);
  an exception of the insert itself is caught and logged.
\<close>

definition update_password_to_database :: "io \<Rightarrow> host \<Rightarrow> rotation \<Rightarrow> exn option \<times> rotation" where
  "update_password_to_database w server_name r =
     (case old_passwords_item r server_name of
        Inl error \<Rightarrow> (Some error, r)
      | Inr old_password \<Rightarrow>
          (case encrypt_new w of
             Some error \<Rightarrow> (Some error, r)
           | None \<Rightarrow>
               (let r1 = emit (InsertCurrent server_name old_password (new_password_generated r)) r in
                case db_update w of
                  None \<Rightarrow> (None, r1)
                | Some error \<Rightarrow>
                    (None, file_log (Failed_update_database server_name error) ''NA'' r1))))"

text \<open>\<^verbatim>\<open>store_password_history\<close>: every exception of the insert is caught and logged.\<close>

definition store_password_history :: "io \<Rightarrow> host \<Rightarrow> rotation \<Rightarrow> rotation" where
  "store_password_history w server_name r =
     (let r1 = emit (InsertHistory server_name (new_password_generated r)) r in
      case db_history w of
        None \<Rightarrow> r1
      | Some error \<Rightarrow> file_log (Failed_store_history error) ''NA'' r1)"

text \<open>
  \<^verbatim>\<open>send_alert_mail\<close>: the template is opened and formatted before the \<^verbatim>\<open>try\<close>, so an
  exception there leaves the function; an exception of the SMTP submission is caught and
  logged.
\<close>

definition send_alert_mail :: "io \<Rightarrow> host \<Rightarrow> exn \<Rightarrow> rotation \<Rightarrow> exn option \<times> rotation" where
  "send_alert_mail w hostname error_msg r =
     (case alert_template w of
        Some error \<Rightarrow> (Some error, r)
      | None \<Rightarrow>
          (let r1 = emit (SmtpSubmit (AlertMail hostname error_msg))
                      (file_log Started_alert_mail hostname r) in
           case alert_smtp w of
             None \<Rightarrow> (None, file_log Sent_alert_mail hostname r1)
           | Some error \<Rightarrow> (None, file_log (Failed_alert_mail error) hostname r1)))"

text \<open>
  The body of the \<^verbatim>\<open>try\<close> of one attempt. \<open>None\<close>: the body reached \<^verbatim>\<open>break\<close>;
  \<open>Some e\<close>: it raised \<open>e\<close>.
\<close>

definition try_body :: "io \<Rightarrow> host \<Rightarrow> secret \<Rightarrow> rotation \<Rightarrow> exn option \<times> rotation" where
  "try_body w server new_password r =
     (case old_passwords_item r server of
        Inl error \<Rightarrow> (Some error, r)
      | Inr stored \<Rightarrow>
     (case decrypt_stored w of
        Some error \<Rightarrow> (Some error, r)
      | None \<Rightarrow>
     (let r1 = emit (SshConnectStored server stored) r in
      case ssh_connect w of
        Some error \<Rightarrow> (Some error, r1)
      | None \<Rightarrow>
     (let r2 = db_log (Started_setting server) server (file_log (Started_setting server) server r1);
          r3 = emit (ExecChange server new_password) r2 in
      case ssh_change w of
        Some error \<Rightarrow> (Some error, r3)
      | None \<Rightarrow>
     (let r4 = db_log (Changed_root_password server) server
                 (file_log (Changed_root_password server) server r3);
          r5 = emit (Sleep 60) r4 in
      case verify_server_login w server r5 of
        (Inl error, r6) \<Rightarrow> (Some error, r6)
      | (Inr True, r6) \<Rightarrow>
          (let r7 = db_log (Successfully_changed server) server
                      (file_log (Successfully_changed server) server r6) in
           case update_password_to_database w server r7 of
             (Some error, r8) \<Rightarrow> (Some error, r8)
           | (None, r8) \<Rightarrow>
               (let r9 = store_password_history w server r8 in
                (None, r9\<lparr>password_change_success_host_list :=
                             password_change_success_host_list r9 @ [server]\<rparr>)))
      | (Inr False, r6) \<Rightarrow>
          (None, r6\<lparr>password_change_fail_host_list :=
                       password_change_fail_host_list r6 @ [server]\<rparr>))))))"

text \<open>The handler \<^verbatim>\<open>except Exception as error\<close>. \<open>Some e\<close>: the handler itself raised.\<close>

definition except_handler ::
  "io \<Rightarrow> host \<Rightarrow> int \<Rightarrow> exn \<Rightarrow> rotation \<Rightarrow> exn option \<times> rotation" where
  "except_handler w server attempt error r =
     (if attempt < max_attempts r then
        (let r1 = db_log (Error_retrying server attempt (max_attempts r) error) server
                    (file_log (Error_retrying server attempt (max_attempts r) error) server r) in
         case send_alert_mail w server error r1 of
           (Some raised, r2) \<Rightarrow> (Some raised, r2)
         | (None, r2) \<Rightarrow> (None, emit (Sleep 1200) r2))
      else
        (let r1 = db_log (Failed_after_attempts server (max_attempts r) error) server
                    (file_log (Failed_after_attempts server (max_attempts r) error) server r) in
         (None, r1\<lparr>password_change_fail_host_list :=
                      password_change_fail_host_list r1 @ [server]\<rparr>)))"

text \<open>
  One pass of the \<^verbatim>\<open>for\<close> loop: \<^verbatim>\<open>try\<close>, \<^verbatim>\<open>except\<close>, and \<^verbatim>\<open>finally: ssh.close()\<close>,
  which runs on every way out.
\<close>

datatype flow = Break | Continue | Raise exn

definition attempt_body ::
  "io \<Rightarrow> host \<Rightarrow> secret \<Rightarrow> int \<Rightarrow> rotation \<Rightarrow> flow \<times> rotation" where
  "attempt_body w server new_password attempt r =
     (case try_body w server new_password r of
        (None, r1) \<Rightarrow> (Break, emit (SshClose server) r1)
      | (Some error, r1) \<Rightarrow>
          (case except_handler w server attempt error r1 of
             (None, r2) \<Rightarrow> (Continue, emit (SshClose server) r2)
           | (Some raised, r2) \<Rightarrow> (Raise raised, emit (SshClose server) r2)))"

text \<open>
  \<^verbatim>\<open>for attempt in range(1, self.max_attempts + 1)\<close>, over the list of the attempts still
  to make; \<open>world attempt\<close> is what the outside world answers during that attempt.
\<close>

fun attempts_loop ::
  "(int \<Rightarrow> io) \<Rightarrow> host \<Rightarrow> secret \<Rightarrow> int list \<Rightarrow> rotation \<Rightarrow> exn option \<times> rotation" where
  "attempts_loop world server new_password [] r = (None, r)"
| "attempts_loop world server new_password (attempt # rest) r =
     (case attempt_body (world attempt) server new_password attempt r of
        (Break, r1) \<Rightarrow> (None, r1)
      | (Continue, r1) \<Rightarrow> attempts_loop world server new_password rest r1
      | (Raise raised, r1) \<Rightarrow> (Some raised, r1))"

definition set_root_password ::
  "(int \<Rightarrow> io) \<Rightarrow> host \<Rightarrow> secret \<Rightarrow> rotation \<Rightarrow> exn option \<times> rotation" where
  "set_root_password world server new_password r =
     attempts_loop world server new_password [1..max_attempts r] r"

section \<open>The final report: \<^verbatim>\<open>send_mail\<close>\<close>

record report_io =
  report_template :: "exn option"
  report_smtp :: "exn option"

definition generate_table_rows_for_mail :: "rotation \<Rightarrow> string \<times> string" where
  "generate_table_rows_for_mail r =
     (let table1_rows = foldl (\<lambda>rows i. rows @ ''<tr><td>'' @ i @ ''</td></tr>'') []
                          (password_change_success_host_list r);
          table2_rows = foldl (\<lambda>rows i. rows @ ''<tr><td>'' @ i @ ''</td></tr>'') []
                          (password_change_fail_host_list r)
      in (table1_rows, table2_rows))"

text \<open>
  As in \<^verbatim>\<open>send_alert_mail\<close>, reading and formatting the template comes before the
  \<^verbatim>\<open>try\<close>; only the SMTP submission is inside it.
\<close>

definition send_mail :: "report_io \<Rightarrow> rotation \<Rightarrow> exn option \<times> rotation" where
  "send_mail rw r =
     (case report_template rw of
        Some error \<Rightarrow> (Some error, r)
      | None \<Rightarrow>
          (let (table1_rows_html, table2_rows_html) = generate_table_rows_for_mail r;
               r1 = emit (SmtpSubmit (ReportMail table1_rows_html table2_rows_html))
                      (file_log Started_report_mail ''NA'' r) in
           case report_smtp rw of
             None \<Rightarrow> (None, file_log Sent_report_mail ''NA'' r1)
           | Some error \<Rightarrow> (None, file_log (Failed_report_mail error) ''NA'' r1)))"

section \<open>The coordinator: \<^verbatim>\<open>run\<close>\<close>

text \<open>
  \<^verbatim>\<open>run\<close> starts one thread per line of the hosts file, each with the arguments
  \<^verbatim>\<open>(host, self.new_password_generated)\<close>, joins them all, and sends the report.

  The threads share the object. A worker reads only fields that no worker writes
  (\<open>max_attempts\<close>, \<open>old_passwords\<close>, \<open>new_password_generated\<close>) and writes by appending
  to one of the two lists, which is atomic in CPython; what a worker does never depends on
  the lists. The model therefore runs the workers one after the other, in the order
  \<open>sched\<close> in which they finish: a list of thread indices, in which the join of all
  threads means that each index occurs once. This fixes the order of the entries of the two
  lists and keeps the effects of each worker in program order; how the effects of
  different workers interleave in time is not represented. \<open>world i\<close> is what the outside
  world answers to thread \<open>i\<close>. An exception that leaves \<^verbatim>\<open>set_root_password\<close> ends its
  thread and no other, and what the thread did before stays. \<open>hostnames_list\<close> is the
  stripped lines of the hosts file, already read.
\<close>

definition thread_target :: "(int \<Rightarrow> io) \<Rightarrow> host \<times> secret \<Rightarrow> rotation \<Rightarrow> rotation" where
  "thread_target world args r =
     (case args of (host, new_password) \<Rightarrow> snd (set_root_password world host new_password r))"

definition run ::
  "(nat \<Rightarrow> int \<Rightarrow> io) \<Rightarrow> report_io \<Rightarrow> nat list \<Rightarrow> host list \<Rightarrow> rotation
     \<Rightarrow> exn option \<times> rotation" where
  "run world rw sched hostnames_list r =
     (let threads_list = map (\<lambda>host. (host, new_password_generated r)) hostnames_list;
          r1 = foldl (\<lambda>r' args. emit (ThreadStart (fst args) (snd args)) r') r threads_list;
          r2 = foldl (\<lambda>r' i. if i < length threads_list
                               then thread_target (world i) (threads_list ! i) r' else r')
                     r1 sched
      in send_mail rw r2)"

section \<open>Construction: \<^verbatim>\<open>__init__\<close>, and the main program\<close>

text \<open>
  \<^verbatim>\<open>get_old_password\<close>: a dictionary from the rows (a later row for the same host
  replaces an earlier one), or, after an exception, a log line and \<^verbatim>\<open>None\<close>.
\<close>

definition get_old_password :: "startup \<Rightarrow> rotation \<Rightarrow> (host \<rightharpoonup> string) option \<times> rotation" where
  "get_old_password env r =
     (let r1 = emit SelectCurrent r in
      case select_current env of
        Inr result \<Rightarrow> (Some (foldl (\<lambda>password_dict row. password_dict(fst row \<mapsto> snd row))
                               Map.empty result), r1)
      | Inl error \<Rightarrow> (None, file_log (Failed_get_current error) ''NA'' r1))"

text \<open>
  \<^verbatim>\<open>__init__\<close>. \<open>conf_failure\<close> stands for an exception in the lines before the two
  queries (configuration values, decryption of the stored logins, the logger). The result
  is \<open>None\<close> when the generator does not return; otherwise the exception that left
  \<^verbatim>\<open>__init__\<close>, if any, and the object with the effects so far.
\<close>

definition Rotation_init :: "startup \<Rightarrow> (exn option \<times> rotation) option" where
  "Rotation_init env =
     (let r0 = \<lparr>password_length = conf_password_length env,
                max_attempts = conf_max_attempts env,
                old_passwords = None,
                new_password_generated = [],
                password_change_success_host_list = [],
                password_change_fail_host_list = [],
                effects = []\<rparr> in
      case conf_failure env of
        Some error \<Rightarrow> Some (Some error, r0)
      | None \<Rightarrow>
          (let (password_dict, r1) = get_old_password env r0;
               r2 = r1\<lparr>old_passwords := password_dict\<rparr> in
           case generate_random_password env r2 (password_length r2) of
             None \<Rightarrow> None
           | Some (Inl error, r3) \<Rightarrow> Some (Some error, r3)
           | Some (Inr random_pass, r3) \<Rightarrow>
               Some (None, r3\<lparr>new_password_generated := random_pass\<rparr>)))"

text \<open>\<^verbatim>\<open>rotation_obj = Rotation(); rotation_obj.run()\<close>\<close>

definition main ::
  "startup \<Rightarrow> (nat \<Rightarrow> int \<Rightarrow> io) \<Rightarrow> report_io \<Rightarrow> nat list \<Rightarrow> host list
     \<Rightarrow> (exn option \<times> rotation) option" where
  "main env world rw sched hostnames_list =
     (case Rotation_init env of
        None \<Rightarrow> None
      | Some (Some error, r) \<Rightarrow> Some (Some error, r)
      | Some (None, r) \<Rightarrow> Some (run world rw sched hostnames_list r))"

section \<open>Observations on the effects\<close>

definition count_events :: "(event \<Rightarrow> bool) \<Rightarrow> rotation \<Rightarrow> nat" where
  "count_events P r = length (filter P (effects r))"

fun is_connect_stored :: "host \<Rightarrow> event \<Rightarrow> bool" where
  "is_connect_stored h (SshConnectStored h' _) = (h' = h)"
| "is_connect_stored h _ = False"

fun is_alert :: "host \<Rightarrow> event \<Rightarrow> bool" where
  "is_alert h (SmtpSubmit (AlertMail h' _)) = (h' = h)"
| "is_alert h _ = False"

fun is_backoff :: "event \<Rightarrow> bool" where
  "is_backoff (Sleep n) = (n = 1200)"
| "is_backoff _ = False"

fun is_close :: "host \<Rightarrow> event \<Rightarrow> bool" where
  "is_close h (SshClose h') = (h' = h)"
| "is_close h _ = False"

fun is_thread_start :: "event \<Rightarrow> bool" where
  "is_thread_start (ThreadStart _ _) = True"
| "is_thread_start _ = False"

fun is_select_history :: "event \<Rightarrow> bool" where
  "is_select_history SelectHistory = True"
| "is_select_history _ = False"

text \<open>
  The configuration of the object, which no method changes after \<^verbatim>\<open>__init__\<close>, and the
  two ways the result lists change.
\<close>

definition same_conf :: "rotation \<Rightarrow> rotation \<Rightarrow> bool" where
  "same_conf r r' \<longleftrightarrow>
     max_attempts r' = max_attempts r \<and> old_passwords r' = old_passwords r \<and>
     new_password_generated r' = new_password_generated r \<and>
     password_length r' = password_length r"

definition lists_same :: "rotation \<Rightarrow> rotation \<Rightarrow> bool" where
  "lists_same r r' \<longleftrightarrow>
     password_change_success_host_list r' = password_change_success_host_list r \<and>
     password_change_fail_host_list r' = password_change_fail_host_list r"

definition appended_once :: "host \<Rightarrow> rotation \<Rightarrow> rotation \<Rightarrow> bool" where
  "appended_once server r r' \<longleftrightarrow>
     (password_change_success_host_list r' = password_change_success_host_list r @ [server] \<and>
      password_change_fail_host_list r' = password_change_fail_host_list r) \<or>
     (password_change_success_host_list r' = password_change_success_host_list r \<and>
      password_change_fail_host_list r' = password_change_fail_host_list r @ [server])"

text \<open>
  The events that may follow the start of the threads when the batch secret is \<open>s\<close>: no
  query of the history or of the stored passwords, no thread start, and no other secret
  than \<open>s\<close>.
\<close>

fun worker_event :: "secret \<Rightarrow> event \<Rightarrow> bool" where
  "worker_event s (SshConnect h x) = (x = s)"
| "worker_event s (ExecChange h x) = (x = s)"
| "worker_event s (InsertCurrent h old x) = (x = s)"
| "worker_event s (InsertHistory h x) = (x = s)"
| "worker_event s (ThreadStart h x) = False"
| "worker_event s SelectHistory = False"
| "worker_event s SelectCurrent = False"
| "worker_event s _ = True"

text \<open>\<open>grows Q r r'\<close>: from \<open>r\<close> to \<open>r'\<close> only events satisfying \<open>Q\<close> were added.\<close>

definition grows :: "(event \<Rightarrow> bool) \<Rightarrow> rotation \<Rightarrow> rotation \<Rightarrow> bool" where
  "grows Q r r' \<longleftrightarrow>
     same_conf r r' \<and> take (length (effects r)) (effects r') = effects r \<and>
     list_all Q (drop (length (effects r)) (effects r'))"

text \<open>
  Two objects that differ at most in the lines of the file log, and two outside worlds that
  differ at most in the answers whose exceptions the program catches and logs: the two
  inserts and the SMTP submission of an alert.
\<close>

fun is_file_log :: "event \<Rightarrow> bool" where
  "is_file_log (FileLog _ _) = True"
| "is_file_log _ = False"

definition requests :: "rotation \<Rightarrow> event list" where
  "requests r = filter (\<lambda>e. \<not> is_file_log e) (effects r)"

definition same_but_file_log :: "rotation \<Rightarrow> rotation \<Rightarrow> bool" where
  "same_but_file_log r1 r2 \<longleftrightarrow>
     same_conf r1 r2 \<and> lists_same r1 r2 \<and> requests r2 = requests r1"

definition caught_differ :: "io \<Rightarrow> io \<Rightarrow> bool" where
  "caught_differ w w' \<longleftrightarrow>
     decrypt_stored w' = decrypt_stored w \<and> ssh_connect w' = ssh_connect w \<and>
     ssh_change w' = ssh_change w \<and> verify_connect w' = verify_connect w \<and>
     encrypt_new w' = encrypt_new w \<and> alert_template w' = alert_template w"

text \<open>
  The history holds every string of the given length over the alphabet; and a random source
  that draws each of these strings in some round of the loop (as a uniform source does with
  probability one).
\<close>

definition exhausted :: "int \<Rightarrow> secret list \<Rightarrow> bool" where
  "exhausted pass_len history \<longleftrightarrow>
     (\<forall>s \<in> set (List.n_lists (nat pass_len) characters). s \<in> set history)"

definition fair_source :: "(nat \<Rightarrow> nat) \<Rightarrow> int \<Rightarrow> bool" where
  "fair_source rnd pass_len \<longleftrightarrow>
     (\<forall>s \<in> set (List.n_lists (nat pass_len) characters).
        \<exists>k. candidate rnd pass_len (k * nat pass_len) = s)"

text \<open>The two loops of \<^verbatim>\<open>run\<close>, named.\<close>

definition start_threads :: "(host \<times> secret) list \<Rightarrow> rotation \<Rightarrow> rotation" where
  "start_threads threads_list r =
     foldl (\<lambda>r' args. emit (ThreadStart (fst args) (snd args)) r') r threads_list"

definition join_threads ::
  "(nat \<Rightarrow> int \<Rightarrow> io) \<Rightarrow> (host \<times> secret) list \<Rightarrow> nat list \<Rightarrow> rotation \<Rightarrow> rotation" where
  "join_threads world threads_list sched r =
     foldl (\<lambda>r' i. if i < length threads_list
                    then thread_target (world i) (threads_list ! i) r' else r') r sched"

section \<open>Example inputs\<close>

definition example_startup :: startup where
  "example_startup =
     \<lparr>conf_password_length = 1, conf_max_attempts = 3, conf_failure = None,
      select_current = Inr [(''h1'', ''c1''), (''h2'', ''c2'')],
      select_history = Inr [''a'', ''b''],
      randbelow = (\<lambda>k. k)\<rparr>"

definition example_rotation :: rotation where
  "example_rotation =
     \<lparr>password_length = 1, max_attempts = 3,
      old_passwords = Some [''h1'' \<mapsto> ''c1'', ''h2'' \<mapsto> ''c2''],
      new_password_generated = ''c'', password_change_success_host_list = [],
      password_change_fail_host_list = [], effects = []\<rparr>"

text \<open>An outside world in which every call returns.\<close>

definition io_ok :: io where
  "io_ok = \<lparr>decrypt_stored = None, ssh_connect = None, ssh_change = None,
            verify_connect = None, encrypt_new = None, db_update = None, db_history = None,
            alert_template = None, alert_smtp = None\<rparr>"

definition io_connect_refused :: io where
  "io_connect_refused = io_ok\<lparr>ssh_connect := Some SocketError\<rparr>"

definition io_verify_rejected :: io where
  "io_verify_rejected = io_ok\<lparr>verify_connect := Some AuthenticationException\<rparr>"

definition io_verify_unreachable :: io where
  "io_verify_unreachable = io_ok\<lparr>verify_connect := Some SocketError\<rparr>"

definition io_stores_down :: io where
  "io_stores_down =
     io_ok\<lparr>db_update := Some OperationalError, db_history := Some OperationalError\<rparr>"

definition report_ok :: report_io where
  "report_ok = \<lparr>report_template = None, report_smtp = None\<rparr>"

definition world_second_refused :: "nat \<Rightarrow> int \<Rightarrow> io" where
  "world_second_refused i a = (if i = 0 then io_ok else io_connect_refused)"

definition io_smtp_down :: io where
  "io_smtp_down = io_connect_refused\<lparr>alert_smtp := Some SMTPException\<rparr>"

definition report_smtp_down :: report_io where
  "report_smtp_down = \<lparr>report_template = None, report_smtp = Some SMTPException\<rparr>"

definition world_verify_unreachable :: "int \<Rightarrow> io" where
  "world_verify_unreachable attempt = io_verify_unreachable"

definition io_template_missing :: io where
  "io_template_missing = io_connect_refused\<lparr>alert_template := Some FileNotFoundError\<rparr>"

definition world_template_missing :: "int \<Rightarrow> io" where
  "world_template_missing attempt = io_template_missing"

definition report_template_missing :: report_io where
  "report_template_missing = \<lparr>report_template = Some FileNotFoundError, report_smtp = None\<rparr>"

definition io_encrypt_fails :: io where
  "io_encrypt_fails = io_ok\<lparr>encrypt_new := Some CryptoError\<rparr>"

definition world_encrypt_fails :: "int \<Rightarrow> io" where
  "world_encrypt_fails attempt = io_encrypt_fails"

section \<open>Lines of the file log\<close>

lemma log_line_written [simp]: "hostname \<noteq> [] \<Longrightarrow> log_line hostname message = [FileLog hostname message]"
  by (simp add: log_line_def)

lemma log_line_dropped [simp]: "log_line [] message = []"
  by (simp add: log_line_def)

lemma log_line_filter [simp]:
  "filter (is_alert h) (log_line hostname message) = []"
  "filter is_backoff (log_line hostname message) = []"
  "filter (is_connect_stored h) (log_line hostname message) = []"
  "filter (is_close h) (log_line hostname message) = []"
  "filter is_select_history (log_line hostname message) = []"
  "filter (\<lambda>e. \<not> is_file_log e) (log_line hostname message) = []"
  by (simp_all add: log_line_def)

lemma log_line_worker_event [simp]: "list_all (worker_event s) (log_line hostname message)"
  by (simp add: log_line_def)

lemma log_line_no_thread_start [simp]: "\<not> list_ex is_thread_start (log_line hostname message)"
  by (simp add: log_line_def)

section \<open>The generator: results and termination\<close>

lemma candidate_length: "length (candidate rnd n pos) = nat n"
  by (simp add: candidate_def)

lemma length_characters: "length characters = 66"
  by (simp add: characters_def)

lemma candidate_alphabet: "set (candidate rnd n pos) \<subseteq> set characters"
  by (auto simp: candidate_def length_characters)

text \<open>
  Partial correctness of the loop, by the induction rule of the fixed point: a raised
  \<open>TypeError\<close> means the history was \<^verbatim>\<open>None\<close>, a returned string is one of the candidates
  and outside the history.
\<close>

lemma generate_loop_spec:
  assumes "generate_loop rnd hist n pos = Some res"
  shows "case res of Inl e \<Rightarrow> hist = None \<and> e = TypeError
         | Inr p \<Rightarrow> \<exists>h k. hist = Some h \<and> p = candidate rnd n k \<and> p \<notin> set h"
proof (rule generate_loop.raw_induct[where P = "\<lambda>rnd hist n pos res.
         case res of Inl e \<Rightarrow> hist = None \<and> e = TypeError
         | Inr p \<Rightarrow> \<exists>h k. hist = Some h \<and> p = candidate rnd n k \<and> p \<notin> set h", OF _ assms])
  fix f rnd hist n pos res
  assume IH: "\<And>rnd hist n pos y. f rnd hist n pos = Some y \<Longrightarrow>
         (case y of Inl e \<Rightarrow> hist = None \<and> e = TypeError
          | Inr p \<Rightarrow> \<exists>h k. hist = Some h \<and> p = candidate rnd n k \<and> p \<notin> set h)"
    and step: "(let random_pass = candidate rnd n pos
        in case hist of None \<Rightarrow> Some (Inl TypeError)
           | Some history \<Rightarrow>
               if random_pass \<notin> set history then Some (Inr random_pass)
               else f rnd hist n (pos + nat n)) = Some res"
  show "case res of Inl e \<Rightarrow> hist = None \<and> e = TypeError
         | Inr p \<Rightarrow> \<exists>h k. hist = Some h \<and> p = candidate rnd n k \<and> p \<notin> set h"
  proof (cases hist)
    case None
    with step show ?thesis by auto
  next
    case (Some h)
    show ?thesis
    proof (cases "candidate rnd n pos \<in> set h")
      case True
      with step Some have "f rnd hist n (pos + nat n) = Some res" by simp
      from IH[OF this] show ?thesis .
    next
      case False
      with step Some show ?thesis by auto
    qed
  qed
qed

lemma generate_loop_None: "generate_loop rnd None n pos = Some (Inl TypeError)"
  by (subst generate_loop.simps) simp

lemma exhausted_iff:
  "exhausted n h \<longleftrightarrow> (\<forall>s. length s = nat n \<and> set s \<subseteq> set characters \<longrightarrow> s \<in> set h)"
  by (auto simp: exhausted_def set_n_lists)

lemma generate_loop_exhausted:
  assumes "exhausted n h"
  shows "generate_loop rnd (Some h) n pos = None"
proof (cases "generate_loop rnd (Some h) n pos")
  case None
  then show ?thesis .
next
  case (Some res)
  from generate_loop_spec[OF this] obtain k where "candidate rnd n k \<notin> set h"
    by (cases res) auto
  with assms candidate_length candidate_alphabet show ?thesis
    unfolding exhausted_iff by blast
qed

text \<open>If the candidate of round \<open>k\<close> is outside the history, the loop returns by then.\<close>

lemma generate_loop_returns:
  assumes "candidate rnd n (pos + k * nat n) \<notin> set h"
  shows "\<exists>p. generate_loop rnd (Some h) n pos = Some (Inr p)"
  using assms
proof (induction k arbitrary: pos)
  case 0
  then show ?case by (subst generate_loop.simps) simp
next
  case (Suc k)
  have "candidate rnd n (pos + nat n + k * nat n) \<notin> set h"
    using Suc.prems by (simp add: algebra_simps)
  from Suc.IH[OF this] show ?case
    by (subst generate_loop.simps) (simp add: Let_def)
qed

lemma fair_source_identity: "fair_source (\<lambda>k. k) 1"
proof -
  have "\<exists>k. candidate (\<lambda>k. k) 1 (k * nat 1) = s"
    if "s \<in> set (List.n_lists (nat 1) characters)" for s
  proof -
    from that obtain c where s: "s = [c]" and c: "c \<in> set characters"
      by (auto simp: set_n_lists length_Suc_conv)
    then obtain i where i: "i < length characters" "characters ! i = c"
      by (auto simp: in_set_conv_nth)
    then have "candidate (\<lambda>k. k) 1 (i * nat 1) = s"
      by (simp add: candidate_def s)
    then show ?thesis ..
  qed
  then show ?thesis unfolding fair_source_def by blast
qed

lemma example_generate:
  "generate_random_password example_startup example_rotation 1 =
     Some (Inr ''c'', emit SelectHistory example_rotation)"
  apply (simp add: generate_random_password_def get_password_history_def example_startup_def)
  apply (subst generate_loop.simps, simp add: candidate_def characters_def)
  apply (subst generate_loop.simps, simp add: candidate_def characters_def)
  apply (subst generate_loop.simps, simp add: candidate_def characters_def)
  done

lemma generate_random_password_sound:
  assumes "generate_random_password env r pass_len = Some (Inr random_pass, r')"
  shows "\<exists>history. select_history env = Inr history \<and> random_pass \<notin> set history \<and>
           length random_pass = nat pass_len \<and> set random_pass \<subseteq> set characters \<and>
           r' = emit SelectHistory r"
proof -
  obtain hist r1 where g: "get_password_history env r = (hist, r1)"
    by (cases "get_password_history env r")
  with assms have l: "generate_loop (randbelow env) hist pass_len 0 = Some (Inr random_pass)"
    and r': "r' = r1"
    by (auto simp: generate_random_password_def split: option.splits)
  from generate_loop_spec[OF l] obtain h k where
    h: "hist = Some h" "random_pass = candidate (randbelow env) pass_len k" "random_pass \<notin> set h"
    by auto
  from g h(1) have "select_history env = Inr h" "r1 = emit SelectHistory r"
    by (auto simp: get_password_history_def Let_def split: sum.splits)
  with h r' candidate_length[of "randbelow env" pass_len k]
    candidate_alphabet[of "randbelow env" pass_len k]
  show ?thesis by auto
qed

text \<open>
  Claim C5. Whenever \<^verbatim>\<open>generate_random_password\<close> returns a password, the password has
  exactly the requested number of characters (none for a negative request, as
  \<^verbatim>\<open>range\<close> is then empty), every character is one of \<open>characters\<close> (the ASCII letters,
  the digits and \<^verbatim>\<open>!@#$\<close>), and the password is not in the history that was read.
\<close>

theorem generate_random_password_result:
  assumes "generate_random_password env r pass_len = Some (Inr random_pass, r')"
  shows "length random_pass = nat pass_len \<and>
         (0 \<le> pass_len \<longrightarrow> int (length random_pass) = pass_len) \<and>
         set random_pass \<subseteq> set characters \<and>
         (\<exists>history. select_history env = Inr history \<and> random_pass \<notin> set history)"
  using generate_random_password_sound[OF assms] by auto

theorem generate_random_password_result_witness:
  "generate_random_password example_startup example_rotation 1 =
     Some (Inr ''c'', emit SelectHistory example_rotation)
   \<and> length ''c'' = nat 1 \<and> int (length ''c'') = 1 \<and> set ''c'' \<subseteq> set characters
   \<and> ''c'' \<notin> set [''a'', ''b'']"
  using generate_random_password_result[OF example_generate] example_generate
  by (simp add: example_startup_def)

text \<open>
  Claim C9. With a history that holds every string of the requested length over the
  alphabet, \<^verbatim>\<open>generate_random_password\<close> never returns, whatever the random source
  draws. With any other history it returns a password, for every random source that draws
  each string of that length in some round.
\<close>

theorem generate_random_password_termination:
  assumes "select_history env = Inr history"
  shows "(exhausted pass_len history \<longrightarrow> generate_random_password env r pass_len = None) \<and>
   (\<not> exhausted pass_len history \<and> fair_source (randbelow env) pass_len \<longrightarrow>
      (\<exists>random_pass r'. generate_random_password env r pass_len = Some (Inr random_pass, r')))"
proof (intro conjI impI)
  assume "exhausted pass_len history"
  then have "generate_loop (randbelow env) (Some history) pass_len 0 = None"
    by (rule generate_loop_exhausted)
  with assms show "generate_random_password env r pass_len = None"
    by (simp add: generate_random_password_def get_password_history_def)
next
  assume a: "\<not> exhausted pass_len history \<and> fair_source (randbelow env) pass_len"
  then obtain s where s: "s \<in> set (List.n_lists (nat pass_len) characters)" "s \<notin> set history"
    by (auto simp: exhausted_def)
  with a obtain k where "candidate (randbelow env) pass_len (k * nat pass_len) = s"
    by (auto simp: fair_source_def)
  with s have "candidate (randbelow env) pass_len (0 + k * nat pass_len) \<notin> set history"
    by simp
  then have "\<exists>p. generate_loop (randbelow env) (Some history) pass_len 0 = Some (Inr p)"
    by (rule generate_loop_returns)
  with assms
  show "\<exists>random_pass r'. generate_random_password env r pass_len = Some (Inr random_pass, r')"
    by (auto simp: generate_random_password_def get_password_history_def)
qed

theorem generate_random_password_termination_witness:
  "select_history (example_startup\<lparr>select_history := Inr ['''']\<rparr>) = Inr [''''] \<and>
   exhausted 0 [''''] \<and>
   generate_random_password (example_startup\<lparr>select_history := Inr ['''']\<rparr>) example_rotation 0
     = None \<and>
   select_history example_startup = Inr [''a'', ''b''] \<and>
   \<not> exhausted 1 [''a'', ''b''] \<and> fair_source (randbelow example_startup) 1 \<and>
   (\<exists>random_pass r'. generate_random_password example_startup example_rotation 1
      = Some (Inr random_pass, r'))"
proof -
  have h0: "select_history (example_startup\<lparr>select_history := Inr ['''']\<rparr>) = Inr ['''']"
    by simp
  have h1: "select_history example_startup = Inr [''a'', ''b'']"
    by (simp add: example_startup_def)
  have e: "exhausted 0 ['''']" by (simp add: exhausted_def)
  have n: "\<not> exhausted 1 [''a'', ''b'']"
    by (simp add: exhausted_def characters_def)
  have f: "fair_source (randbelow example_startup) 1"
    using fair_source_identity by (simp add: example_startup_def)
  from generate_random_password_termination[OF h0, of 0 example_rotation]
       generate_random_password_termination[OF h1, of 1 example_rotation] h0 h1 e n f
  show ?thesis by simp
qed

section \<open>The worker: what one attempt and the loop do\<close>

lemmas log_defs = emit_def file_log_def db_log_def

lemma old_passwords_item_cong:
  "old_passwords r' = old_passwords r \<Longrightarrow> old_passwords_item r' server = old_passwords_item r server"
  by (simp add: old_passwords_item_def)





text \<open>
  Every method of the worker keeps the configuration, adds only worker events, and changes
  the lists as its result says.
\<close>

lemma grows_refl: "grows Q r r"
  by (simp add: grows_def same_conf_def)

lemma grows_iff:
  "grows Q r r' \<longleftrightarrow> same_conf r r' \<and> (\<exists>ys. effects r' = effects r @ ys \<and> list_all Q ys)"
proof
  assume g: "grows Q r r'"
  have "effects r' = take (length (effects r)) (effects r') @ drop (length (effects r)) (effects r')"
    by simp
  with g show "same_conf r r' \<and> (\<exists>ys. effects r' = effects r @ ys \<and> list_all Q ys)"
    unfolding grows_def by metis
next
  assume "same_conf r r' \<and> (\<exists>ys. effects r' = effects r @ ys \<and> list_all Q ys)"
  then show "grows Q r r'" by (auto simp: grows_def)
qed

lemma grows_trans: "grows Q r r1 \<Longrightarrow> grows Q r1 r2 \<Longrightarrow> grows Q r r2"
  unfolding grows_iff by (auto simp: same_conf_def)

lemma grows_mono: "grows Q r r' \<Longrightarrow> (\<And>e. Q e \<Longrightarrow> Q' e) \<Longrightarrow> grows Q' r r'"
  unfolding grows_iff by (auto simp: list_all_iff)

lemma verify_server_login_grows:
  "verify_server_login w server r = (res, r') \<Longrightarrow>
     grows (worker_event (new_password_generated r)) r r' \<and> lists_same r r'"
  by (auto simp: verify_server_login_def log_defs grows_def same_conf_def lists_same_def Let_def
      split: option.splits if_splits)

lemma update_password_to_database_grows:
  "update_password_to_database w server r = (res, r') \<Longrightarrow>
     grows (worker_event (new_password_generated r)) r r' \<and> lists_same r r'"
  by (auto simp: update_password_to_database_def log_defs grows_def same_conf_def lists_same_def Let_def
      split: option.splits if_splits sum.splits)

lemma try_body_grows:
  assumes "try_body w server pw r = (res, r')" "pw = new_password_generated r"
  shows "grows (worker_event pw) r r' \<and>
     (case res of None \<Rightarrow> appended_once server r r' | Some e \<Rightarrow> lists_same r r')"
  using assms
  by (auto simp: try_body_def verify_server_login_def update_password_to_database_def store_password_history_def
     log_defs grows_def same_conf_def lists_same_def appended_once_def Let_def
      split: option.splits if_splits sum.splits prod.splits bool.splits)
    metis

lemma send_alert_mail_grows:
  "send_alert_mail w server e r = (res, r') \<Longrightarrow>
     grows (worker_event s) r r' \<and> lists_same r r' \<and> (res \<noteq> None \<longrightarrow> alert_template w = res)"
  by (auto simp: send_alert_mail_def log_defs grows_def same_conf_def lists_same_def Let_def
      split: option.splits)

lemma except_handler_grows:
  assumes "except_handler w server attempt e r = (res, r')"
  shows "grows (worker_event s) r r' \<and>
     (if attempt < max_attempts r then lists_same r r' \<and> (res \<noteq> None \<longrightarrow> alert_template w = res)
      else res = None \<and> password_change_success_host_list r' = password_change_success_host_list r \<and>
           password_change_fail_host_list r' = password_change_fail_host_list r @ [server])"
  using assms
  by (auto simp: except_handler_def send_alert_mail_def log_defs grows_def same_conf_def lists_same_def Let_def
      split: option.splits if_splits prod.splits)

lemma attempt_body_grows:
  assumes "attempt_body w server pw attempt r = (fl, r')" "pw = new_password_generated r"
  shows "grows (worker_event pw) r r' \<and>
     (case fl of Break \<Rightarrow> appended_once server r r'
      | Continue \<Rightarrow> if attempt < max_attempts r then lists_same r r'
                    else password_change_success_host_list r' = password_change_success_host_list r \<and>
           password_change_fail_host_list r' = password_change_fail_host_list r @ [server]
      | Raise e \<Rightarrow> attempt < max_attempts r \<and> alert_template w = Some e \<and> lists_same r r')"
proof -
  obtain res1 r1 where t: "try_body w server pw r = (res1, r1)" by (cases "try_body w server pw r")
  note T = try_body_grows[OF t assms(2)]
  have ge: "grows (worker_event pw) r1 (emit (SshClose server) r1)" for r1
    by (simp add: grows_def same_conf_def emit_def)
  show ?thesis
  proof (cases res1)
    case None
    with t assms(1) have "fl = Break" "r' = emit (SshClose server) r1"
      by (auto simp: attempt_body_def)
    with T None ge[of r1] show ?thesis
      by (auto intro: grows_trans simp: appended_once_def emit_def)
  next
    case (Some e)
    obtain res2 r2 where h: "except_handler w server attempt e r1 = (res2, r2)"
      by (cases "except_handler w server attempt e r1")
    note H = except_handler_grows[OF h, of pw]
    have m: "max_attempts r1 = max_attempts r" using T by (simp add: grows_def same_conf_def)
    from t h Some assms(1) have r': "r' = emit (SshClose server) r2"
      and fl: "fl = (case res2 of None \<Rightarrow> Continue | Some x \<Rightarrow> Raise x)"
      by (auto simp: attempt_body_def split: option.splits)
    have g: "grows (worker_event pw) r r'"
      using T H ge[of r2] r' by (blast intro: grows_trans)
    show ?thesis
      using g T H Some m fl r'
      by (auto simp: lists_same_def emit_def split: option.splits if_splits)
  qed
qed

lemma attempts_loop_grows:
  assumes "attempts_loop world server pw as r = (res, r')" "pw = new_password_generated r"
  shows "grows (worker_event pw) r r'"
  using assms
proof (induction as arbitrary: r)
  case Nil
  then show ?case by (simp add: grows_refl)
next
  case (Cons a as)
  obtain fl r1 where b: "attempt_body (world a) server pw a r = (fl, r1)"
    by (cases "attempt_body (world a) server pw a r")
  from attempt_body_grows[OF b Cons.prems(2)] have g1: "grows (worker_event pw) r r1" by simp
  then have pw1: "pw = new_password_generated r1" using Cons.prems(2) by (simp add: grows_def same_conf_def)
  show ?case
  proof (cases fl)
    case Continue
    with b Cons.prems(1) have "attempts_loop world server pw as r1 = (res, r')" by simp
    from Cons.IH[OF this pw1] g1 show ?thesis by (rule grows_trans[rotated])
  qed (use b Cons.prems(1) g1 in auto)
qed

lemma attempts_loop_once:
  assumes "m = max_attempts r" "k \<le> m" "pw = new_password_generated r"
    "\<forall>a. k \<le> a \<and> a < m \<longrightarrow> alert_template (world a) = None"
  shows "\<exists>r'. attempts_loop world server pw [k..m] r = (None, r') \<and> appended_once server r r'"
  using assms
proof (induction "nat (m - k)" arbitrary: k r)
  case 0
  then have km: "k = m" by simp
  obtain fl r1 where b: "attempt_body (world m) server pw m r = (fl, r1)"
    by (cases "attempt_body (world m) server pw m r")
  from attempt_body_grows[OF b "0.prems"(3)] "0.prems"(1) b
  show ?case unfolding km
    by (cases fl) (auto simp: upto_rec1[of m m] appended_once_def)
next
  case (Suc n)
  then have lt: "k < m" and n: "n = nat (m - (k + 1))" by linarith+
  have up: "[k..m] = k # [k + 1..m]" using lt by (simp add: upto_rec1)
  obtain fl r1 where b: "attempt_body (world k) server pw k r = (fl, r1)"
    by (cases "attempt_body (world k) server pw k r")
  note B = attempt_body_grows[OF b Suc.prems(3)]
  have t: "alert_template (world k) = None" using Suc.prems(4) lt by simp
  have km: "k < max_attempts r" using lt Suc.prems(1) by simp
  show ?case
  proof (cases fl)
    case Break
    with B b show ?thesis unfolding up by simp
  next
    case Continue
    with B km have ls: "lists_same r r1" and g: "grows (worker_event pw) r r1" by simp_all
    have m1: "m = max_attempts r1" and pw1: "pw = new_password_generated r1"
      using g Suc.prems(1,3) by (simp_all add: grows_def same_conf_def)
    have "\<exists>r'. attempts_loop world server pw [k + 1..m] r1 = (None, r') \<and> appended_once server r1 r'"
      using Suc.prems(4) lt by (intro Suc.hyps(1)[OF n m1 _ pw1]) auto
    with ls b Continue show ?thesis unfolding up
      by (auto simp: lists_same_def appended_once_def)
  next
    case (Raise e)
    with B t show ?thesis by simp
  qed
qed

section \<open>The worker: scenarios\<close>

lemma upto_first: "k \<le> m \<Longrightarrow> [k..m] = k # [k + 1..m]"
  by (simp add: upto_rec1)



lemma attempt_body_verify_rejected:
  assumes "old_passwords_item r server = Inr stored" "decrypt_stored w = None"
    "ssh_connect w = None" "ssh_change w = None"
    "verify_connect w = Some AuthenticationException"
  shows "\<exists>r'. attempt_body w server pw attempt r = (Break, r') \<and>
      password_change_fail_host_list r' = password_change_fail_host_list r @ [server] \<and>
      password_change_success_host_list r' = password_change_success_host_list r \<and>
      count_events (is_connect_stored server) r' = count_events (is_connect_stored server) r + 1 \<and>
      count_events (is_close server) r' = count_events (is_close server) r + 1 \<and>
      count_events (is_alert server) r' = count_events (is_alert server) r \<and>
      count_events is_backoff r' = count_events is_backoff r"
  using assms
  by (simp add: attempt_body_def try_body_def verify_server_login_def
      log_defs count_events_def Let_def)

lemma attempt_body_verified:
  assumes "old_passwords_item r server = Inr stored" "decrypt_stored w = None"
    "ssh_connect w = None" "ssh_change w = None" "verify_connect w = None"
    "encrypt_new w = None"
  shows "\<exists>r'. attempt_body w server pw attempt r = (Break, r') \<and>
      password_change_success_host_list r' = password_change_success_host_list r @ [server] \<and>
      password_change_fail_host_list r' = password_change_fail_host_list r \<and>
      count_events (is_connect_stored server) r' = count_events (is_connect_stored server) r + 1 \<and>
      count_events (is_close server) r' = count_events (is_close server) r + 1 \<and>
      count_events (is_alert server) r' = count_events (is_alert server) r \<and>
      count_events is_backoff r' = count_events is_backoff r \<and>
      (\<forall>e. db_update w = Some e \<longrightarrow>
         FileLog ''NA'' (Failed_update_database server e) \<in> set (effects r')) \<and>
      (\<forall>e. db_history w = Some e \<longrightarrow>
         FileLog ''NA'' (Failed_store_history e) \<in> set (effects r'))"
  using assms
  by (cases "db_update w"; cases "db_history w")
     (simp_all add: attempt_body_def try_body_def verify_server_login_def
      update_password_to_database_def store_password_history_def old_passwords_item_def
      log_defs count_events_def Let_def)

text \<open>
  Claim C3. When, in some attempt, the connection and the password change succeed and the
  login with the new password raises \<open>AuthenticationException\<close>, the worker stops in that
  same attempt, whatever attempts remain: the host is appended to the failure list, with
  one connection and one pass of the loop, and no alert mail and no backoff sleep. In the
  first attempt this is the whole of \<^verbatim>\<open>set_root_password\<close>.
\<close>

theorem verify_rejected_is_terminal:
  assumes "old_passwords_item r server = Inr stored"
    and "decrypt_stored (world attempt) = None" and "ssh_connect (world attempt) = None"
    and "ssh_change (world attempt) = None"
    and "verify_connect (world attempt) = Some AuthenticationException"
  shows "\<exists>r'. (\<forall>rest. attempts_loop world server pw (attempt # rest) r = (None, r')) \<and>
      (attempt = 1 \<and> 1 \<le> max_attempts r \<longrightarrow>
         set_root_password world server pw r = (None, r')) \<and>
      password_change_fail_host_list r' = password_change_fail_host_list r @ [server] \<and>
      password_change_success_host_list r' = password_change_success_host_list r \<and>
      count_events (is_connect_stored server) r' = count_events (is_connect_stored server) r + 1 \<and>
      count_events (is_close server) r' = count_events (is_close server) r + 1 \<and>
      count_events (is_alert server) r' = count_events (is_alert server) r \<and>
      count_events is_backoff r' = count_events is_backoff r"
proof -
  from attempt_body_verify_rejected[OF assms, of pw attempt]
  obtain r' where r': "attempt_body (world attempt) server pw attempt r = (Break, r')"
      "password_change_fail_host_list r' = password_change_fail_host_list r @ [server]"
      "password_change_success_host_list r' = password_change_success_host_list r"
      "count_events (is_connect_stored server) r' = count_events (is_connect_stored server) r + 1"
      "count_events (is_close server) r' = count_events (is_close server) r + 1"
      "count_events (is_alert server) r' = count_events (is_alert server) r"
      "count_events is_backoff r' = count_events is_backoff r"
    by blast
  have "attempt = 1 \<and> 1 \<le> max_attempts r \<longrightarrow> set_root_password world server pw r = (None, r')"
    using r'(1) by (auto simp: set_root_password_def upto_first)
  with r' show ?thesis
    by (intro exI[of _ r']) simp
qed

theorem verify_rejected_is_terminal_witness:
  "old_passwords_item example_rotation ''h1'' = Inr ''c1'' \<and>
   decrypt_stored io_verify_rejected = None \<and> ssh_connect io_verify_rejected = None \<and>
   ssh_change io_verify_rejected = None \<and>
   verify_connect io_verify_rejected = Some AuthenticationException \<and>
   1 \<le> max_attempts example_rotation \<and>
   (\<exists>r'. (\<forall>rest. attempts_loop (\<lambda>a. io_verify_rejected) ''h1'' ''c'' (1 # rest) example_rotation
              = (None, r')) \<and>
      set_root_password (\<lambda>a. io_verify_rejected) ''h1'' ''c'' example_rotation = (None, r') \<and>
      password_change_fail_host_list r' = [''h1''] \<and>
      password_change_success_host_list r' = [] \<and>
      count_events (is_connect_stored ''h1'') r' = 1 \<and>
      count_events (is_close ''h1'') r' = 1 \<and>
      count_events (is_alert ''h1'') r' = 0 \<and>
      count_events is_backoff r' = 0)"
proof -
  have h1: "1 \<le> max_attempts example_rotation" by (simp add: example_rotation_def)
  have h2: "old_passwords_item example_rotation ''h1'' = Inr ''c1''"
    by (simp add: example_rotation_def old_passwords_item_def)
  have h3: "decrypt_stored ((\<lambda>a. io_verify_rejected) (1::int)) = None"
    and h4: "ssh_connect ((\<lambda>a. io_verify_rejected) (1::int)) = None"
    and h5: "ssh_change ((\<lambda>a. io_verify_rejected) (1::int)) = None"
    and h6: "verify_connect ((\<lambda>a. io_verify_rejected) (1::int)) = Some AuthenticationException"
    by (simp_all add: io_verify_rejected_def io_ok_def)
  have c: "count_events P example_rotation = 0" for P
    by (simp add: count_events_def example_rotation_def)
  from verify_rejected_is_terminal[where world = "\<lambda>a. io_verify_rejected" and attempt = 1
      and pw = "''c''", OF h2 h3 h4 h5 h6]
  obtain r' where r':
      "\<forall>rest. attempts_loop (\<lambda>a. io_verify_rejected) ''h1'' ''c'' (1 # rest) example_rotation
         = (None, r')"
      "(1::int) = 1 \<and> 1 \<le> max_attempts example_rotation \<longrightarrow>
         set_root_password (\<lambda>a. io_verify_rejected) ''h1'' ''c'' example_rotation = (None, r')"
      "password_change_fail_host_list r' = password_change_fail_host_list example_rotation @ [''h1'']"
      "password_change_success_host_list r' = password_change_success_host_list example_rotation"
      "count_events (is_connect_stored ''h1'') r' =
         count_events (is_connect_stored ''h1'') example_rotation + 1"
      "count_events (is_close ''h1'') r' = count_events (is_close ''h1'') example_rotation + 1"
      "count_events (is_alert ''h1'') r' = count_events (is_alert ''h1'') example_rotation"
      "count_events is_backoff r' = count_events is_backoff example_rotation"
    by blast
  have l: "password_change_fail_host_list example_rotation = []"
    "password_change_success_host_list example_rotation = []"
    by (simp_all add: example_rotation_def)
  have w: "decrypt_stored io_verify_rejected = None" "ssh_connect io_verify_rejected = None"
    "ssh_change io_verify_rejected = None"
    "verify_connect io_verify_rejected = Some AuthenticationException"
    by (simp_all add: io_verify_rejected_def io_ok_def)
  from r' h1 have "(\<forall>rest. attempts_loop (\<lambda>a. io_verify_rejected) ''h1'' ''c'' (1 # rest) example_rotation
              = (None, r')) \<and>
      set_root_password (\<lambda>a. io_verify_rejected) ''h1'' ''c'' example_rotation = (None, r') \<and>
      password_change_fail_host_list r' = [''h1''] \<and>
      password_change_success_host_list r' = [] \<and>
      count_events (is_connect_stored ''h1'') r' = 1 \<and>
      count_events (is_close ''h1'') r' = 1 \<and>
      count_events (is_alert ''h1'') r' = 0 \<and>
      count_events is_backoff r' = 0"
    by (simp add: c l del: attempts_loop.simps)
  then have "\<exists>r'. (\<forall>rest. attempts_loop (\<lambda>a. io_verify_rejected) ''h1'' ''c'' (1 # rest) example_rotation
              = (None, r')) \<and>
      set_root_password (\<lambda>a. io_verify_rejected) ''h1'' ''c'' example_rotation = (None, r') \<and>
      password_change_fail_host_list r' = [''h1''] \<and>
      password_change_success_host_list r' = [] \<and>
      count_events (is_connect_stored ''h1'') r' = 1 \<and>
      count_events (is_close ''h1'') r' = 1 \<and>
      count_events (is_alert ''h1'') r' = 0 \<and>
      count_events is_backoff r' = 0"
    by (rule exI)
  with h1 h2 w show ?thesis by blast
qed

section \<open>Caught exceptions change the file log only\<close>

lemmas sim_defs = same_but_file_log_def same_conf_def lists_same_def requests_def

lemma sim_fields:
  assumes "same_but_file_log r1 r2"
  shows "old_passwords r2 = old_passwords r1" "new_password_generated r2 = new_password_generated r1"
    "max_attempts r2 = max_attempts r1"
    "password_change_success_host_list r2 = password_change_success_host_list r1"
    "password_change_fail_host_list r2 = password_change_fail_host_list r1"
  using assms by (simp_all add: sim_defs)

lemma emit_sim:
  "same_but_file_log r1 r2 \<Longrightarrow> same_but_file_log (emit e r1) (emit e r2)"
  by (simp add: emit_def sim_defs)

lemma db_log_sim:
  "same_but_file_log r1 r2 \<Longrightarrow> same_but_file_log (db_log m h r1) (db_log m h r2)"
  by (simp add: db_log_def emit_sim)

lemma file_log_sim:
  "same_but_file_log r1 r2 \<Longrightarrow> same_but_file_log (file_log m1 h1 r1) (file_log m2 h2 r2)"
  by (simp add: file_log_def sim_defs)

lemma file_log_sim_left:
  "same_but_file_log r1 r2 \<Longrightarrow> same_but_file_log (file_log m h r1) r2"
  by (simp add: file_log_def sim_defs)

lemma file_log_sim_right:
  "same_but_file_log r1 r2 \<Longrightarrow> same_but_file_log r1 (file_log m h r2)"
  by (simp add: file_log_def sim_defs)

lemma success_sim:
  "same_but_file_log r1 r2 \<Longrightarrow>
   same_but_file_log
     (r1\<lparr>password_change_success_host_list := password_change_success_host_list r1 @ [s]\<rparr>)
     (r2\<lparr>password_change_success_host_list := password_change_success_host_list r2 @ [s]\<rparr>)"
  by (simp add: sim_defs)

lemma fail_sim:
  "same_but_file_log r1 r2 \<Longrightarrow>
   same_but_file_log
     (r1\<lparr>password_change_fail_host_list := password_change_fail_host_list r1 @ [s]\<rparr>)
     (r2\<lparr>password_change_fail_host_list := password_change_fail_host_list r2 @ [s]\<rparr>)"
  by (simp add: sim_defs)

lemmas sim_intros = emit_sim db_log_sim file_log_sim file_log_sim_left file_log_sim_right
  success_sim fail_sim

lemma old_passwords_item_sim:
  "same_but_file_log r1 r2 \<Longrightarrow> old_passwords_item r2 server = old_passwords_item r1 server"
  by (simp add: old_passwords_item_def sim_fields)

lemma verify_server_login_sim:
  assumes "same_but_file_log r1 r2" "verify_connect w' = verify_connect w"
  shows "fst (verify_server_login w' server r2) = fst (verify_server_login w server r1) \<and>
         same_but_file_log (snd (verify_server_login w server r1))
                           (snd (verify_server_login w' server r2))"
  using assms
  by (cases "verify_connect w")
     (simp_all add: verify_server_login_def Let_def sim_fields[OF assms(1)] sim_intros)

lemma update_password_to_database_sim:
  assumes "same_but_file_log r1 r2" "encrypt_new w' = encrypt_new w"
  shows "fst (update_password_to_database w' server r2) = fst (update_password_to_database w server r1) \<and>
         same_but_file_log (snd (update_password_to_database w server r1))
                           (snd (update_password_to_database w' server r2))"
  using assms
  by (cases "old_passwords_item r1 server"; cases "encrypt_new w"; cases "db_update w";
      cases "db_update w'")
     (simp_all add: update_password_to_database_def Let_def old_passwords_item_sim[OF assms(1)]
        sim_fields[OF assms(1)] sim_intros)

lemma store_password_history_sim:
  assumes "same_but_file_log r1 r2"
  shows "same_but_file_log (store_password_history w server r1)
                           (store_password_history w' server r2)"
  using assms
  by (cases "db_history w"; cases "db_history w'")
     (simp_all add: store_password_history_def Let_def sim_fields[OF assms(1)] sim_intros)

lemma after_verify_sim:
  assumes "same_but_file_log s1 s2" "caught_differ w w'"
  shows "fst (case verify_server_login w' server s2 of
          (Inl error, r6) \<Rightarrow> (Some error, r6)
        | (Inr True, r6) \<Rightarrow>
          (let r7 = db_log (Successfully_changed server) server
                      (file_log (Successfully_changed server) server r6) in
           case update_password_to_database w' server r7 of
             (Some error, r8) \<Rightarrow> (Some error, r8)
           | (None, r8) \<Rightarrow>
               (let r9 = store_password_history w' server r8 in
                (None, r9\<lparr>password_change_success_host_list :=
                             password_change_success_host_list r9 @ [server]\<rparr>)))
        | (Inr False, r6) \<Rightarrow>
          (None, r6\<lparr>password_change_fail_host_list :=
                       password_change_fail_host_list r6 @ [server]\<rparr>))
       = fst (case verify_server_login w server s1 of
          (Inl error, r6) \<Rightarrow> (Some error, r6)
        | (Inr True, r6) \<Rightarrow>
          (let r7 = db_log (Successfully_changed server) server
                      (file_log (Successfully_changed server) server r6) in
           case update_password_to_database w server r7 of
             (Some error, r8) \<Rightarrow> (Some error, r8)
           | (None, r8) \<Rightarrow>
               (let r9 = store_password_history w server r8 in
                (None, r9\<lparr>password_change_success_host_list :=
                             password_change_success_host_list r9 @ [server]\<rparr>)))
        | (Inr False, r6) \<Rightarrow>
          (None, r6\<lparr>password_change_fail_host_list :=
                       password_change_fail_host_list r6 @ [server]\<rparr>)) \<and>
     same_but_file_log
       (snd (case verify_server_login w server s1 of
          (Inl error, r6) \<Rightarrow> (Some error, r6)
        | (Inr True, r6) \<Rightarrow>
          (let r7 = db_log (Successfully_changed server) server
                      (file_log (Successfully_changed server) server r6) in
           case update_password_to_database w server r7 of
             (Some error, r8) \<Rightarrow> (Some error, r8)
           | (None, r8) \<Rightarrow>
               (let r9 = store_password_history w server r8 in
                (None, r9\<lparr>password_change_success_host_list :=
                             password_change_success_host_list r9 @ [server]\<rparr>)))
        | (Inr False, r6) \<Rightarrow>
          (None, r6\<lparr>password_change_fail_host_list :=
                       password_change_fail_host_list r6 @ [server]\<rparr>)))
       (snd (case verify_server_login w' server s2 of
          (Inl error, r6) \<Rightarrow> (Some error, r6)
        | (Inr True, r6) \<Rightarrow>
          (let r7 = db_log (Successfully_changed server) server
                      (file_log (Successfully_changed server) server r6) in
           case update_password_to_database w' server r7 of
             (Some error, r8) \<Rightarrow> (Some error, r8)
           | (None, r8) \<Rightarrow>
               (let r9 = store_password_history w' server r8 in
                (None, r9\<lparr>password_change_success_host_list :=
                             password_change_success_host_list r9 @ [server]\<rparr>)))
        | (Inr False, r6) \<Rightarrow>
          (None, r6\<lparr>password_change_fail_host_list :=
                       password_change_fail_host_list r6 @ [server]\<rparr>)))"
proof -
  obtain a1 b1 where v1: "verify_server_login w server s1 = (a1, b1)"
    by (cases "verify_server_login w server s1")
  obtain a2 b2 where v2: "verify_server_login w' server s2 = (a2, b2)"
    by (cases "verify_server_login w' server s2")
  from assms(2) have vc: "verify_connect w' = verify_connect w"
    and en: "encrypt_new w' = encrypt_new w"
    by (simp_all add: caught_differ_def)
  from verify_server_login_sim[OF assms(1) vc, of server] v1 v2
  have v: "a2 = a1" "same_but_file_log b1 b2" by simp_all
  let ?c1 = "db_log (Successfully_changed server) server
               (file_log (Successfully_changed server) server b1)"
  let ?c2 = "db_log (Successfully_changed server) server
               (file_log (Successfully_changed server) server b2)"
  have c: "same_but_file_log ?c1 ?c2" using v(2) by (intro sim_intros)
  obtain x1 u1 where p1: "update_password_to_database w server ?c1 = (x1, u1)"
    by (cases "update_password_to_database w server ?c1")
  obtain x2 u2 where p2: "update_password_to_database w' server ?c2 = (x2, u2)"
    by (cases "update_password_to_database w' server ?c2")
  from update_password_to_database_sim[OF c en, of server] p1 p2
  have u: "x2 = x1" "same_but_file_log u1 u2" by simp_all
  note h = store_password_history_sim[OF u(2), of w server w']
  show ?thesis
  proof (cases a1)
    case (Inl e)
    with v v1 v2 show ?thesis by simp
  next
    case (Inr b)
    show ?thesis
    proof (cases b)
      case True
      with Inr v v1 v2 u p1 p2 h show ?thesis
        by (cases x1) (simp_all add: Let_def success_sim)
    next
      case False
      with Inr v v1 v2 show ?thesis by (simp add: fail_sim)
    qed
  qed
qed

lemma try_body_sim:
  assumes "same_but_file_log r1 r2" "caught_differ w w'"
  shows "fst (try_body w' server pw r2) = fst (try_body w server pw r1) \<and>
         same_but_file_log (snd (try_body w server pw r1)) (snd (try_body w' server pw r2))"
proof -
  from assms(2) have w: "decrypt_stored w' = decrypt_stored w" "ssh_connect w' = ssh_connect w"
    "ssh_change w' = ssh_change w"
    by (simp_all add: caught_differ_def)
  note o = old_passwords_item_sim[OF assms(1), of server]
  show ?thesis
  proof (cases "old_passwords_item r1 server")
    case (Inl e)
    with o assms(1) show ?thesis by (simp add: try_body_def Let_def)
  next
    case (Inr stored)
    let ?a1 = "emit (SshConnectStored server stored) r1"
    let ?a2 = "emit (SshConnectStored server stored) r2"
    have a: "same_but_file_log ?a1 ?a2" using assms(1) by (intro sim_intros)
    let ?b1 = "emit (ExecChange server pw)
                (db_log (Started_setting server) server (file_log (Started_setting server) server ?a1))"
    let ?b2 = "emit (ExecChange server pw)
                (db_log (Started_setting server) server (file_log (Started_setting server) server ?a2))"
    have b: "same_but_file_log ?b1 ?b2" using assms(1) by (intro sim_intros)
    let ?c1 = "emit (Sleep 60) (db_log (Changed_root_password server) server
                 (file_log (Changed_root_password server) server ?b1))"
    let ?c2 = "emit (Sleep 60) (db_log (Changed_root_password server) server
                 (file_log (Changed_root_password server) server ?b2))"
    have c: "same_but_file_log ?c1 ?c2" using assms(1) by (intro sim_intros)
    note av = after_verify_sim[OF c assms(2), of server]
    show ?thesis
    proof (cases "decrypt_stored w")
      case (Some e)
      with Inr o w assms(1) show ?thesis by (simp add: try_body_def Let_def)
    next
      case None
      note d = this
      show ?thesis
      proof (cases "ssh_connect w")
        case (Some e)
        with Inr o w d a show ?thesis by (simp add: try_body_def Let_def)
      next
        case None
        note sc = this
        show ?thesis
        proof (cases "ssh_change w")
          case (Some e)
          with Inr o w d sc b show ?thesis by (simp add: try_body_def Let_def)
        next
          case None
          with Inr o w d sc av show ?thesis by (simp add: try_body_def Let_def)
        qed
      qed
    qed
  qed
qed

lemma except_handler_sim:
  assumes "same_but_file_log r1 r2" "caught_differ w w'"
  shows "fst (except_handler w' server attempt e r2) = fst (except_handler w server attempt e r1) \<and>
         same_but_file_log (snd (except_handler w server attempt e r1))
                           (snd (except_handler w' server attempt e r2))"
proof -
  from assms(2) have t: "alert_template w' = alert_template w" by (simp add: caught_differ_def)
  note m = sim_fields(3)[OF assms(1)]
  show ?thesis
  proof (cases "attempt < max_attempts r1")
    case True
    with m t assms(1) show ?thesis
      by (cases "alert_template w"; cases "alert_smtp w"; cases "alert_smtp w'")
         (simp_all add: except_handler_def send_alert_mail_def Let_def sim_intros)
  next
    case False
    with m assms(1) show ?thesis
      by (simp add: except_handler_def Let_def sim_intros)
  qed
qed

lemma attempt_body_sim:
  assumes "same_but_file_log r1 r2" "caught_differ w w'"
  shows "fst (attempt_body w' server pw attempt r2) = fst (attempt_body w server pw attempt r1) \<and>
         same_but_file_log (snd (attempt_body w server pw attempt r1))
                           (snd (attempt_body w' server pw attempt r2))"
proof -
  obtain t1 s1 where t1: "try_body w server pw r1 = (t1, s1)" by (cases "try_body w server pw r1")
  obtain t2 s2 where t2: "try_body w' server pw r2 = (t2, s2)" by (cases "try_body w' server pw r2")
  from try_body_sim[OF assms, of server pw] t1 t2
  have t: "t2 = t1" "same_but_file_log s1 s2" by simp_all
  show ?thesis
  proof (cases t1)
    case None
    with t t1 t2 show ?thesis by (simp add: attempt_body_def emit_sim)
  next
    case (Some e)
    obtain x1 u1 where x1: "except_handler w server attempt e s1 = (x1, u1)"
      by (cases "except_handler w server attempt e s1")
    obtain x2 u2 where x2: "except_handler w' server attempt e s2 = (x2, u2)"
      by (cases "except_handler w' server attempt e s2")
    from except_handler_sim[OF t(2) assms(2), of server attempt e] x1 x2
    have "x2 = x1" "same_but_file_log u1 u2" by simp_all
    with Some t t1 t2 x1 x2 show ?thesis
      by (cases x1) (simp_all add: attempt_body_def emit_sim)
  qed
qed

lemma attempts_loop_sim:
  assumes "same_but_file_log r1 r2" "\<forall>a. caught_differ (world a) (world' a)"
  shows "fst (attempts_loop world' server pw as r2) = fst (attempts_loop world server pw as r1) \<and>
         same_but_file_log (snd (attempts_loop world server pw as r1))
                           (snd (attempts_loop world' server pw as r2))"
  using assms(1)
proof (induction as arbitrary: r1 r2)
  case Nil
  then show ?case by simp
next
  case (Cons a as)
  obtain f1 s1 where b1: "attempt_body (world a) server pw a r1 = (f1, s1)"
    by (cases "attempt_body (world a) server pw a r1")
  obtain f2 s2 where b2: "attempt_body (world' a) server pw a r2 = (f2, s2)"
    by (cases "attempt_body (world' a) server pw a r2")
  from attempt_body_sim[OF Cons.prems, of "world a" "world' a" server pw a] assms(2) b1 b2
  have f: "f2 = f1" "same_but_file_log s1 s2" by simp_all
  show ?case
    using b1 b2 f Cons.IH[OF f(2)] by (cases f1) simp_all
qed

lemma set_root_password_sim:
  assumes "same_but_file_log r1 r2" "\<forall>a. caught_differ (world a) (world' a)"
  shows "fst (set_root_password world' server pw r2) = fst (set_root_password world server pw r1) \<and>
         same_but_file_log (snd (set_root_password world server pw r1))
                           (snd (set_root_password world' server pw r2))"
proof -
  have "max_attempts r2 = max_attempts r1" using assms(1) by (simp add: sim_defs)
  then show ?thesis
    unfolding set_root_password_def using attempts_loop_sim[OF assms] by simp
qed

section \<open>The coordinator\<close>

lemma run_unfold:
  "run world rw sched hostnames_list r =
     send_mail rw (join_threads world (map (\<lambda>host. (host, new_password_generated r)) hostnames_list) sched
        (start_threads (map (\<lambda>host. (host, new_password_generated r)) hostnames_list) r))"
  by (simp add: run_def start_threads_def join_threads_def Let_def)

lemma start_threads_effects:
  "effects (start_threads ts r) = effects r @ map (\<lambda>args. ThreadStart (fst args) (snd args)) ts \<and>
   same_conf r (start_threads ts r) \<and> lists_same r (start_threads ts r)"
proof (induction ts arbitrary: r)
  case Nil
  then show ?case by (simp add: start_threads_def same_conf_def lists_same_def)
next
  case (Cons t ts)
  have "start_threads (t # ts) r = start_threads ts (emit (ThreadStart (fst t) (snd t)) r)"
    by (simp add: start_threads_def)
  with Cons[of "emit (ThreadStart (fst t) (snd t)) r"] show ?case
    by (simp add: emit_def same_conf_def lists_same_def)
qed

lemma thread_target_grows:
  assumes "pw = new_password_generated r"
  shows "grows (worker_event pw) r (thread_target world (server, pw) r)"
proof -
  obtain res r' where s: "set_root_password world server pw r = (res, r')"
    by (cases "set_root_password world server pw r")
  then have "attempts_loop world server pw [1..max_attempts r] r = (res, r')"
    by (simp add: set_root_password_def)
  from attempts_loop_grows[OF this assms] s show ?thesis
    by (simp add: thread_target_def)
qed

lemma thread_target_once:
  assumes "pw = new_password_generated r" "1 \<le> max_attempts r"
    "\<forall>a. 1 \<le> a \<and> a < max_attempts r \<longrightarrow> alert_template (world a) = None"
  shows "appended_once server r (thread_target world (server, pw) r)"
proof -
  from attempts_loop_once[where server = server, OF refl assms(2) assms(1) assms(3)]
  show ?thesis by (auto simp: thread_target_def set_root_password_def)
qed

lemma appended_once_mset:
  "appended_once server r r' \<Longrightarrow>
   mset (password_change_success_host_list r' @ password_change_fail_host_list r') =
   mset (password_change_success_host_list r @ password_change_fail_host_list r) + {#server#}"
  by (auto simp: appended_once_def)

lemma join_threads_grows:
  assumes "\<forall>t \<in> set ts. snd t = new_password_generated r"
  shows "grows (worker_event (new_password_generated r)) r (join_threads world ts sched r)"
  using assms
proof (induction sched arbitrary: r)
  case Nil
  then show ?case by (simp add: join_threads_def grows_refl)
next
  case (Cons i sched)
  let ?s = "new_password_generated r"
  let ?r1 = "if i < length ts then thread_target (world i) (ts ! i) r else r"
  have j: "join_threads world ts (i # sched) r = join_threads world ts sched ?r1"
    by (simp add: join_threads_def)
  have g1: "grows (worker_event ?s) r ?r1"
  proof (cases "i < length ts")
    case True
    then have "snd (ts ! i) = ?s" using Cons.prems by simp
    then have "ts ! i = (fst (ts ! i), ?s)" by (metis prod.collapse)
    with thread_target_grows[where world = "world i" and server = "fst (ts ! i)" and r = r, OF refl]
      True show ?thesis by simp
  next
    case False
    then show ?thesis by (simp add: grows_refl)
  qed
  then have s1: "new_password_generated ?r1 = ?s" by (simp add: grows_def same_conf_def)
  have "grows (worker_event (new_password_generated ?r1)) ?r1 (join_threads world ts sched ?r1)"
    using Cons.prems s1 by (intro Cons.IH) simp
  with g1 s1 j show ?case by (metis grows_trans)
qed

lemma join_threads_once:
  assumes "\<forall>t \<in> set ts. snd t = new_password_generated r" "1 \<le> max_attempts r"
    "\<forall>i \<in> set sched. i < length ts"
    "\<forall>i a. i < length ts \<and> 1 \<le> a \<and> a < max_attempts r \<longrightarrow> alert_template (world i a) = None"
  shows "mset (password_change_success_host_list (join_threads world ts sched r) @
               password_change_fail_host_list (join_threads world ts sched r)) =
         mset (password_change_success_host_list r @ password_change_fail_host_list r) +
         mset (map (\<lambda>i. fst (ts ! i)) sched)"
  using assms
proof (induction sched arbitrary: r)
  case Nil
  then show ?case by (simp add: join_threads_def)
next
  case (Cons i sched)
  let ?s = "new_password_generated r"
  let ?r1 = "thread_target (world i) (ts ! i) r"
  have i: "i < length ts" using Cons.prems(3) by simp
  have j: "join_threads world ts (i # sched) r = join_threads world ts sched ?r1"
    using i by (simp add: join_threads_def)
  have "snd (ts ! i) = ?s" using Cons.prems(1) i by simp
  then have ti: "ts ! i = (fst (ts ! i), ?s)" by (metis prod.collapse)
  have g1: "grows (worker_event ?s) r ?r1"
    using thread_target_grows[where world = "world i" and server = "fst (ts ! i)" and r = r, OF refl]
      ti by simp
  then have c1: "new_password_generated ?r1 = ?s" "max_attempts ?r1 = max_attempts r"
    by (simp_all add: grows_def same_conf_def)
  have "\<forall>a. 1 \<le> a \<and> a < max_attempts r \<longrightarrow> alert_template (world i a) = None"
    using Cons.prems(4) i by simp
  from thread_target_once[where server = "fst (ts ! i)", OF refl Cons.prems(2) this] ti
  have o: "appended_once (fst (ts ! i)) r ?r1" by simp
  have "mset (password_change_success_host_list (join_threads world ts sched ?r1) @
               password_change_fail_host_list (join_threads world ts sched ?r1)) =
         mset (password_change_success_host_list ?r1 @ password_change_fail_host_list ?r1) +
         mset (map (\<lambda>i. fst (ts ! i)) sched)"
    using Cons.prems c1 by (intro Cons.IH) simp_all
  with appended_once_mset[OF o] j show ?case by simp
qed

lemma send_mail_grows:
  "grows (worker_event s) r (snd (send_mail rw r)) \<and> lists_same r (snd (send_mail rw r))"
  by (auto simp: send_mail_def generate_table_rows_for_mail_def log_defs grows_def same_conf_def
      lists_same_def Let_def split: option.splits prod.splits)

lemma mset_schedule:
  assumes "mset sched = mset [0..<length xs]"
  shows "mset (map ((!) xs) sched) = mset xs"
proof -
  have "mset (map ((!) xs) sched) = image_mset ((!) xs) (mset sched)" by simp
  also have "\<dots> = image_mset ((!) xs) (mset [0..<length xs])" using assms by simp
  also have "\<dots> = mset (map ((!) xs) [0..<length xs])" by simp
  also have "\<dots> = mset xs" by (simp add: map_nth)
  finally show ?thesis .
qed

text \<open>
  Claim C1, as amended. When the hosts file names no host twice, at least one attempt is
  configured and the alert template loads whenever an alert is due, then after \<^verbatim>\<open>run\<close>,
  in whatever order the threads finish, the two lists together hold every host exactly
  once: their union is the set of hosts, and they are disjoint.
\<close>

theorem run_partitions_hosts:
  assumes "distinct hostnames_list"
    and "mset sched = mset [0..<length hostnames_list]"
    and "1 \<le> max_attempts r"
    and "\<forall>i a. i < length hostnames_list \<and> 1 \<le> a \<and> a < max_attempts r \<longrightarrow>
           alert_template (world i a) = None"
    and "password_change_success_host_list r = []"
    and "password_change_fail_host_list r = []"
  shows "mset (password_change_success_host_list (snd (run world rw sched hostnames_list r)) @
               password_change_fail_host_list (snd (run world rw sched hostnames_list r)))
           = mset hostnames_list \<and>
         set (password_change_success_host_list (snd (run world rw sched hostnames_list r))) \<union>
         set (password_change_fail_host_list (snd (run world rw sched hostnames_list r)))
           = set hostnames_list \<and>
         set (password_change_success_host_list (snd (run world rw sched hostnames_list r))) \<inter>
         set (password_change_fail_host_list (snd (run world rw sched hostnames_list r))) = {} \<and>
         distinct (password_change_success_host_list (snd (run world rw sched hostnames_list r)) @
                   password_change_fail_host_list (snd (run world rw sched hostnames_list r)))"
proof -
  let ?s = "new_password_generated r"
  let ?ts = "map (\<lambda>host. (host, ?s)) hostnames_list"
  let ?r1 = "start_threads ?ts r"
  let ?r2 = "join_threads world ?ts sched ?r1"
  let ?r3 = "snd (run world rw sched hostnames_list r)"
  let ?out = "password_change_success_host_list ?r3 @ password_change_fail_host_list ?r3"
  have r3: "?r3 = snd (send_mail rw ?r2)" by (simp add: run_unfold)
  note st = start_threads_effects[of ?ts r]
  have c1: "new_password_generated ?r1 = ?s" "max_attempts ?r1 = max_attempts r"
    and l1: "password_change_success_host_list ?r1 = []" "password_change_fail_host_list ?r1 = []"
    using st assms(5,6) by (simp_all add: same_conf_def lists_same_def)
  have in_range: "\<forall>i \<in> set sched. i < length ?ts"
  proof
    fix i assume "i \<in> set sched"
    then have "i \<in># mset sched" by simp
    then have "i \<in> set [0..<length hostnames_list]" unfolding assms(2) by simp
    then show "i < length ?ts" by simp
  qed
  have fst_nth: "map (\<lambda>i. fst (?ts ! i)) sched = map ((!) hostnames_list) sched"
    using in_range by (intro map_cong) simp_all
  have "mset (password_change_success_host_list ?r2 @ password_change_fail_host_list ?r2) =
        mset (password_change_success_host_list ?r1 @ password_change_fail_host_list ?r1) +
        mset (map (\<lambda>i. fst (?ts ! i)) sched)"
    using c1 assms(3,4) in_range by (intro join_threads_once) simp_all
  then have "mset (password_change_success_host_list ?r2 @ password_change_fail_host_list ?r2) =
        mset hostnames_list"
    using l1 fst_nth mset_schedule[OF assms(2)] by simp
  moreover have "lists_same ?r2 ?r3" unfolding r3 using send_mail_grows[of ?s ?r2 rw] by simp
  ultimately have m: "mset ?out = mset hostnames_list" by (simp add: lists_same_def)
  then have d: "distinct ?out" using assms(1) by (metis mset_eq_imp_distinct_iff)
  from m have s: "set ?out = set hostnames_list" by (metis set_mset_mset)
  from m d s show ?thesis by auto
qed

lemma upto_1_3: "[1..(3::int)] = [1, 2, 3]"
  by (simp add: upto_rec1)

lemma example_duplicate_run:
  "password_change_success_host_list
     (snd (run world_second_refused report_ok [0, 1] [''h1'', ''h1''] example_rotation)) = [''h1''] \<and>
   password_change_fail_host_list
     (snd (run world_second_refused report_ok [0, 1] [''h1'', ''h1''] example_rotation)) = [''h1'']"
  by (simp add: run_def thread_target_def set_root_password_def example_rotation_def upto_1_3
      attempt_body_def try_body_def except_handler_def send_alert_mail_def verify_server_login_def
      update_password_to_database_def store_password_history_def old_passwords_item_def
      send_mail_def generate_table_rows_for_mail_def report_ok_def world_second_refused_def
      io_ok_def io_connect_refused_def log_defs Let_def)


text \<open>
  Claim C1 as stated fails for a hosts file that names a host twice: each line gets a
  thread of its own. Here the first thread succeeds and the second cannot connect, and
  the host ends in both lists.
\<close>

theorem duplicate_host_in_both_lists:
  "password_change_success_host_list
     (snd (run world_second_refused report_ok [0, 1] [''h1'', ''h1''] example_rotation)) = [''h1''] \<and>
   password_change_fail_host_list
     (snd (run world_second_refused report_ok [0, 1] [''h1'', ''h1''] example_rotation)) = [''h1''] \<and>
   \<not> (set (password_change_success_host_list
     (snd (run world_second_refused report_ok [0, 1] [''h1'', ''h1''] example_rotation))) \<inter>
   set (password_change_fail_host_list
     (snd (run world_second_refused report_ok [0, 1] [''h1'', ''h1''] example_rotation))) = {})"
  using example_duplicate_run by simp

theorem run_partitions_hosts_witness:
  "distinct [''h1'', ''h2''] \<and> mset [1, 0] = mset [0..<length [''h1'', ''h2'']] \<and>
   1 \<le> max_attempts example_rotation \<and>
   (\<forall>i a. alert_template (world_second_refused i a) = None) \<and>
   password_change_success_host_list example_rotation = [] \<and>
   password_change_fail_host_list example_rotation = [] \<and>
   mset (password_change_success_host_list
           (snd (run world_second_refused report_ok [1, 0] [''h1'', ''h2''] example_rotation)) @
         password_change_fail_host_list
           (snd (run world_second_refused report_ok [1, 0] [''h1'', ''h2''] example_rotation)))
     = mset [''h1'', ''h2''] \<and>
   set (password_change_success_host_list
           (snd (run world_second_refused report_ok [1, 0] [''h1'', ''h2''] example_rotation))) \<union>
   set (password_change_fail_host_list
           (snd (run world_second_refused report_ok [1, 0] [''h1'', ''h2''] example_rotation)))
     = set [''h1'', ''h2''] \<and>
   set (password_change_success_host_list
           (snd (run world_second_refused report_ok [1, 0] [''h1'', ''h2''] example_rotation))) \<inter>
   set (password_change_fail_host_list
           (snd (run world_second_refused report_ok [1, 0] [''h1'', ''h2''] example_rotation))) = {} \<and>
   distinct (password_change_success_host_list
           (snd (run world_second_refused report_ok [1, 0] [''h1'', ''h2''] example_rotation)) @
         password_change_fail_host_list
           (snd (run world_second_refused report_ok [1, 0] [''h1'', ''h2''] example_rotation)))"
proof -
  have h1: "distinct [''h1'', ''h2'']" by simp
  have h2: "mset [1, 0] = mset [0..<length [''h1'', ''h2'']]"
    by (simp add: upt_rec)
  have h3: "1 \<le> max_attempts example_rotation" by (simp add: example_rotation_def)
  have h4: "\<forall>i a. i < length [''h1'', ''h2''] \<and> 1 \<le> a \<and> a < max_attempts example_rotation \<longrightarrow>
      alert_template (world_second_refused i a) = None"
    by (simp add: world_second_refused_def io_ok_def io_connect_refused_def)
  have h5: "password_change_success_host_list example_rotation = []"
    and h6: "password_change_fail_host_list example_rotation = []"
    by (simp_all add: example_rotation_def)
  have h4': "\<forall>i a. alert_template (world_second_refused i a) = None"
    by (simp add: world_second_refused_def io_ok_def io_connect_refused_def)
  from run_partitions_hosts[OF h1 h2 h3 h4 h5 h6, of report_ok] h1 h2 h3 h4' h5 h6
  show ?thesis by blast
qed

lemma worker_event_not_select: "list_all (worker_event s) zs \<Longrightarrow> filter is_select_history zs = []"
  by (induction zs) (auto elim: worker_event.elims)

lemma thread_start_not_select:
  "filter is_select_history (map (\<lambda>host. ThreadStart host s) hs) = []"
  by (induction hs) auto

lemma Rotation_init_success:
  assumes "Rotation_init env = Some (None, r0)"
  shows "\<exists>history. select_history env = Inr history \<and> new_password_generated r0 \<notin> set history \<and>
     length (new_password_generated r0) = nat (conf_password_length env) \<and>
     set (new_password_generated r0) \<subseteq> set characters \<and>
     count_events is_select_history r0 = 1 \<and> \<not> list_ex is_thread_start (effects r0) \<and>
     password_change_success_host_list r0 = [] \<and> password_change_fail_host_list r0 = [] \<and>
     max_attempts r0 = conf_max_attempts env"
proof -
  from assms have cf: "conf_failure env = None"
    by (auto simp: Rotation_init_def Let_def split: option.splits)
  define rb where "rb = \<lparr>password_length = conf_password_length env,
                max_attempts = conf_max_attempts env,
                old_passwords = None,
                new_password_generated = [],
                password_change_success_host_list = [],
                password_change_fail_host_list = [],
                effects = []\<rparr>"
  obtain d r1 where o: "get_old_password env rb = (d, r1)" by (cases "get_old_password env rb")
  define r2 where "r2 = r1\<lparr>old_passwords := d\<rparr>"
  from assms cf o obtain r3 where
    g: "generate_random_password env r2 (password_length r2) = Some (Inr (new_password_generated r0), r3)"
    and r0: "r0 = r3\<lparr>new_password_generated := new_password_generated r0\<rparr>"
    unfolding Rotation_init_def rb_def[symmetric] r2_def
    by (auto simp: Let_def split: option.splits sum.splits prod.splits)
  have r1: "password_length r1 = conf_password_length env" "max_attempts r1 = conf_max_attempts env"
    "password_change_success_host_list r1 = []" "password_change_fail_host_list r1 = []"
    "filter is_select_history (effects r1) = []" "\<not> list_ex is_thread_start (effects r1)"
    using o by (auto simp: get_old_password_def rb_def log_defs Let_def split: sum.splits)
  from g have r3: "r3 = emit SelectHistory r2"
    by (auto simp: generate_random_password_def get_password_history_def log_defs Let_def
        split: sum.splits option.splits dest!: generate_loop_spec)
  have f0: "effects r0 = effects r1 @ [SelectHistory]" "max_attempts r0 = max_attempts r1"
    "password_change_success_host_list r0 = password_change_success_host_list r1"
    "password_change_fail_host_list r0 = password_change_fail_host_list r1"
    by (subst r0, simp add: r3 r2_def emit_def)+
  have pl: "password_length r2 = conf_password_length env"
    using r1 by (simp add: r2_def)
  from generate_random_password_sound[OF g] r1 f0 pl
  show ?thesis
    by (auto simp: count_events_def)
qed


lemma run_effects:
  "\<exists>zs. effects (snd (run world rw sched hostnames_list r)) =
          effects r @ map (\<lambda>host. ThreadStart host (new_password_generated r)) hostnames_list @ zs \<and>
        list_all (worker_event (new_password_generated r)) zs"
proof -
  let ?s = "new_password_generated r"
  let ?ts = "map (\<lambda>host. (host, ?s)) hostnames_list"
  let ?r1 = "start_threads ?ts r"
  let ?r2 = "join_threads world ?ts sched ?r1"
  let ?r3 = "snd (run world rw sched hostnames_list r)"
  have r3: "?r3 = snd (send_mail rw ?r2)" by (simp add: run_unfold)
  note st = start_threads_effects[of ?ts r]
  then have s1: "new_password_generated ?r1 = ?s" by (simp add: same_conf_def)
  have e1: "effects ?r1 = effects r @ map (\<lambda>host. ThreadStart host ?s) hostnames_list"
    using st by (simp add: comp_def)
  have "grows (worker_event (new_password_generated ?r1)) ?r1 ?r2"
    using s1 by (intro join_threads_grows) simp
  then have "grows (worker_event ?s) ?r1 ?r2" by (simp only: s1)
  moreover have "grows (worker_event ?s) ?r2 ?r3"
    unfolding r3 using send_mail_grows[of ?s ?r2 rw] by simp
  ultimately have "grows (worker_event ?s) ?r1 ?r3" by (rule grows_trans)
  then obtain zs where "effects ?r3 = effects ?r1 @ zs" "list_all (worker_event ?s) zs"
    unfolding grows_iff by blast
  with e1 show ?thesis by auto
qed

text \<open>
  Claim C6. When the construction succeeds, the history has been selected once and the
  secret, which is not in that history, generated before any thread is started. \<^verbatim>\<open>run\<close>
  then starts one thread per host, each with that secret, and nothing that follows selects
  the history again or uses another secret: in the whole batch the history is read once.
\<close>

theorem one_secret_per_batch:
  assumes "Rotation_init env = Some (None, r0)"
  shows "\<exists>history zs.
     select_history env = Inr history \<and> new_password_generated r0 \<notin> set history \<and>
     count_events is_select_history r0 = 1 \<and> \<not> list_ex is_thread_start (effects r0) \<and>
     main env world rw sched hostnames_list = Some (run world rw sched hostnames_list r0) \<and>
     effects (snd (run world rw sched hostnames_list r0)) =
       effects r0 @ map (\<lambda>host. ThreadStart host (new_password_generated r0)) hostnames_list @ zs \<and>
     list_all (worker_event (new_password_generated r0)) zs \<and>
     count_events is_select_history (snd (run world rw sched hostnames_list r0)) = 1"
proof -
  from Rotation_init_success[OF assms] obtain history where
    h: "select_history env = Inr history" "new_password_generated r0 \<notin> set history"
       "count_events is_select_history r0 = 1" "\<not> list_ex is_thread_start (effects r0)"
    by blast
  from run_effects[of world rw sched hostnames_list r0] obtain zs where
    zs: "effects (snd (run world rw sched hostnames_list r0)) =
       effects r0 @ map (\<lambda>host. ThreadStart host (new_password_generated r0)) hostnames_list @ zs"
       "list_all (worker_event (new_password_generated r0)) zs"
    by blast
  have m: "main env world rw sched hostnames_list = Some (run world rw sched hostnames_list r0)"
    using assms by (simp add: main_def)
  have c: "count_events is_select_history (snd (run world rw sched hostnames_list r0)) = 1"
    using h(3) zs(1) worker_event_not_select[OF zs(2)] thread_start_not_select
    by (simp add: count_events_def)
  from h zs m c show ?thesis by blast
qed

lemma example_init:
  "Rotation_init example_startup =
     Some (None, example_rotation\<lparr>effects := [SelectCurrent, SelectHistory]\<rparr>)"
proof -
  have g: "generate_loop (\<lambda>k. k) (Some [''a'', ''b'']) 1 0 = Some (Inr ''c'')"
    apply (subst generate_loop.simps, simp add: candidate_def characters_def)
    apply (subst generate_loop.simps, simp add: candidate_def characters_def)
    apply (subst generate_loop.simps, simp add: candidate_def characters_def)
    done
  show ?thesis
    by (simp add: Rotation_init_def get_old_password_def generate_random_password_def
        get_password_history_def example_startup_def example_rotation_def log_defs g)
qed

theorem one_secret_per_batch_witness:
  "Rotation_init example_startup =
     Some (None, example_rotation\<lparr>effects := [SelectCurrent, SelectHistory]\<rparr>) \<and>
   (\<exists>zs. ''c'' \<notin> set [''a'', ''b''] \<and>
     main example_startup world_second_refused report_ok [1, 0] [''h1'', ''h2''] =
       Some (run world_second_refused report_ok [1, 0] [''h1'', ''h2'']
               (example_rotation\<lparr>effects := [SelectCurrent, SelectHistory]\<rparr>)) \<and>
     effects (snd (run world_second_refused report_ok [1, 0] [''h1'', ''h2'']
               (example_rotation\<lparr>effects := [SelectCurrent, SelectHistory]\<rparr>))) =
       [SelectCurrent, SelectHistory, ThreadStart ''h1'' ''c'', ThreadStart ''h2'' ''c''] @ zs \<and>
     list_all (worker_event ''c'') zs \<and>
     count_events is_select_history
       (snd (run world_second_refused report_ok [1, 0] [''h1'', ''h2'']
               (example_rotation\<lparr>effects := [SelectCurrent, SelectHistory]\<rparr>))) = 1)"
  using one_secret_per_batch[OF example_init, of world_second_refused report_ok "[1, 0]" "[''h1'', ''h2'']"]
    example_init
  by (auto simp: example_startup_def example_rotation_def)

text \<open>
  Claim C10. When the select of the history raises, \<^verbatim>\<open>get_password_history\<close> logs the
  error and returns \<^verbatim>\<open>None\<close>, \<^verbatim>\<open>generate_random_password\<close> raises \<open>TypeError\<close>, and so
  do \<^verbatim>\<open>__init__\<close> and the main program, with the error in the file log, no thread
  started and both lists empty.
\<close>

theorem history_failure_aborts_construction:
  assumes "select_history env = Inl error" and "conf_failure env = None"
  shows "get_password_history env r =
           (None, file_log (Failed_get_history error) ''NA'' (emit SelectHistory r)) \<and>
         (\<exists>r1. generate_random_password env r pass_len = Some (Inl TypeError, r1) \<and>
                FileLog ''NA'' (Failed_get_history error) \<in> set (effects r1)) \<and>
         (\<exists>r'. Rotation_init env = Some (Some TypeError, r') \<and>
                main env world rw sched hostnames_list = Some (Some TypeError, r') \<and>
                FileLog ''NA'' (Failed_get_history error) \<in> set (effects r') \<and>
                \<not> list_ex is_thread_start (effects r') \<and>
                password_change_success_host_list r' = [] \<and>
                password_change_fail_host_list r' = [])"
proof (intro conjI)
  show g: "get_password_history env r =
           (None, file_log (Failed_get_history error) ''NA'' (emit SelectHistory r))"
    using assms(1) by (simp add: get_password_history_def)
  show "\<exists>r1. generate_random_password env r pass_len = Some (Inl TypeError, r1) \<and>
                FileLog ''NA'' (Failed_get_history error) \<in> set (effects r1)"
    using assms(1)
    by (simp add: generate_random_password_def get_password_history_def generate_loop_None log_defs)
  show "\<exists>r'. Rotation_init env = Some (Some TypeError, r') \<and>
                main env world rw sched hostnames_list = Some (Some TypeError, r') \<and>
                FileLog ''NA'' (Failed_get_history error) \<in> set (effects r') \<and>
                \<not> list_ex is_thread_start (effects r') \<and>
                password_change_success_host_list r' = [] \<and>
                password_change_fail_host_list r' = []"
    using assms
    by (cases "select_current env")
       (simp_all add: main_def Rotation_init_def get_old_password_def generate_random_password_def
        get_password_history_def generate_loop_None log_defs)
qed

theorem history_failure_aborts_construction_witness:
  "select_history (example_startup\<lparr>select_history := Inl OperationalError\<rparr>) = Inl OperationalError \<and>
   conf_failure (example_startup\<lparr>select_history := Inl OperationalError\<rparr>) = None \<and>
   get_password_history (example_startup\<lparr>select_history := Inl OperationalError\<rparr>) example_rotation =
     (None, file_log (Failed_get_history OperationalError) ''NA'' (emit SelectHistory example_rotation)) \<and>
   (\<exists>r1. generate_random_password (example_startup\<lparr>select_history := Inl OperationalError\<rparr>)
            example_rotation 1 = Some (Inl TypeError, r1) \<and>
          FileLog ''NA'' (Failed_get_history OperationalError) \<in> set (effects r1)) \<and>
   (\<exists>r'. Rotation_init (example_startup\<lparr>select_history := Inl OperationalError\<rparr>) =
            Some (Some TypeError, r') \<and>
          main (example_startup\<lparr>select_history := Inl OperationalError\<rparr>)
            world_second_refused report_ok [1, 0] [''h1'', ''h2''] = Some (Some TypeError, r') \<and>
          FileLog ''NA'' (Failed_get_history OperationalError) \<in> set (effects r') \<and>
          \<not> list_ex is_thread_start (effects r') \<and>
          password_change_success_host_list r' = [] \<and>
          password_change_fail_host_list r' = [])"
proof -
  have h1: "select_history (example_startup\<lparr>select_history := Inl OperationalError\<rparr>) =
      Inl OperationalError"
    by simp
  have h2: "conf_failure (example_startup\<lparr>select_history := Inl OperationalError\<rparr>) = None"
    by (simp add: example_startup_def)
  from history_failure_aborts_construction[OF h1 h2, of example_rotation 1 world_second_refused
      report_ok "[1, 0]" "[''h1'', ''h2'']"] h1 h2
  show ?thesis by simp
qed

section \<open>What triggers the retry handling\<close>

lemma try_body_no_retry_events:
  "count_events (is_alert h) (snd (try_body w server pw r)) = count_events (is_alert h) r \<and>
   count_events is_backoff (snd (try_body w server pw r)) = count_events is_backoff r"
  by (auto simp: try_body_def verify_server_login_def update_password_to_database_def
      store_password_history_def log_defs count_events_def Let_def
      split: option.splits sum.splits)

lemma try_body_frame:
  "same_conf r (snd (try_body w server pw r)) \<and>
   (fst (try_body w server pw r) \<noteq> None \<longrightarrow> lists_same r (snd (try_body w server pw r)))"
  by (auto simp: try_body_def verify_server_login_def update_password_to_database_def
      store_password_history_def log_defs same_conf_def lists_same_def Let_def
      split: option.splits sum.splits)

lemma try_body_verify_raises:
  assumes "old_passwords_item r server = Inr stored" "decrypt_stored w = None"
    "ssh_connect w = None" "ssh_change w = None" "verify_connect w = Some e"
  shows "fst (try_body w server pw r) = (if e = AuthenticationException then None else Some e)"
  using assms
  by (simp add: try_body_def verify_server_login_def log_defs Let_def)

lemma attempt_body_no_exception:
  assumes "fst (try_body w server pw r) = None"
  shows "fst (attempt_body w server pw attempt r) = Break \<and>
     count_events (is_alert h) (snd (attempt_body w server pw attempt r)) = count_events (is_alert h) r \<and>
     count_events is_backoff (snd (attempt_body w server pw attempt r)) = count_events is_backoff r"
proof -
  obtain r1 where t: "try_body w server pw r = (None, r1)"
    using assms by (cases "try_body w server pw r") simp
  from try_body_no_retry_events[of h w server pw r] t
  show ?thesis by (simp add: attempt_body_def emit_def count_events_def)
qed

lemma attempt_body_exception_retry:
  assumes "fst (try_body w server pw r) = Some e" "attempt < max_attempts r" "alert_template w = None"
  shows "fst (attempt_body w server pw attempt r) = Continue \<and>
     lists_same r (snd (attempt_body w server pw attempt r)) \<and>
     count_events (is_alert server) (snd (attempt_body w server pw attempt r)) =
       count_events (is_alert server) r + 1 \<and>
     count_events is_backoff (snd (attempt_body w server pw attempt r)) =
       count_events is_backoff r + 1"
proof -
  obtain r1 where t: "try_body w server pw r = (Some e, r1)"
    using assms by (cases "try_body w server pw r") simp
  from try_body_frame[of r w server pw] t
  have "max_attempts r1 = max_attempts r" "lists_same r r1"
    by (simp_all add: same_conf_def)
  with try_body_no_retry_events[of server w server pw r] t assms(2,3)
  show ?thesis
    by (cases "alert_smtp w")
       (simp_all add: attempt_body_def except_handler_def send_alert_mail_def log_defs
        count_events_def lists_same_def Let_def)
qed


text \<open>
  Claim C4 as stated fails. \<^verbatim>\<open>verify_server_login\<close> catches
  \<^verbatim>\<open>paramiko.AuthenticationException\<close> only. When the verifying login raises anything
  else, here a socket error, the exception leaves the \<^verbatim>\<open>try\<close> block of
  \<^verbatim>\<open>set_root_password\<close>: an alert is sent, the worker sleeps the backoff and connects
  again, three times in all with \<open>max_attempts = 3\<close>.
\<close>

theorem verify_failure_is_retried:
  "ssh_connect io_verify_unreachable = None \<and> ssh_change io_verify_unreachable = None \<and>
   verify_connect io_verify_unreachable = Some SocketError \<and>
   fst (try_body io_verify_unreachable ''h1'' ''c'' example_rotation) = Some SocketError \<and>
   fst (attempt_body io_verify_unreachable ''h1'' ''c'' 1 example_rotation) = Continue \<and>
   count_events (is_alert ''h1'')
     (snd (attempt_body io_verify_unreachable ''h1'' ''c'' 1 example_rotation)) = 1 \<and>
   count_events is_backoff
     (snd (attempt_body io_verify_unreachable ''h1'' ''c'' 1 example_rotation)) = 1 \<and>
   count_events (is_connect_stored ''h1'')
     (snd (set_root_password world_verify_unreachable ''h1'' ''c'' example_rotation)) = 3"
  by (simp add: set_root_password_def example_rotation_def upto_1_3 world_verify_unreachable_def
      attempt_body_def try_body_def except_handler_def send_alert_mail_def verify_server_login_def
      old_passwords_item_def io_verify_unreachable_def
      io_ok_def log_defs count_events_def Let_def)

text \<open>
  Claim C4, as amended. An attempt whose \<^verbatim>\<open>try\<close> block raises nothing ends the loop
  with no alert and no backoff. An attempt that is not the last and whose \<^verbatim>\<open>try\<close> block
  raises sends, when the alert template loads, one alert, sleeps the backoff once, leaves
  the lists as they are and goes on to the next attempt. When the stored password has been
  found and decrypted and the connection and the change have succeeded, a failure of the
  verifying login makes the \<^verbatim>\<open>try\<close> block raise exactly when it is not an authentication
  failure.
\<close>

theorem retry_handling_trigger:
  "(fst (try_body w server pw r) = None \<longrightarrow>
      fst (attempt_body w server pw attempt r) = Break \<and>
      count_events (is_alert server) (snd (attempt_body w server pw attempt r)) =
        count_events (is_alert server) r \<and>
      count_events is_backoff (snd (attempt_body w server pw attempt r)) =
        count_events is_backoff r) \<and>
   (fst (try_body w server pw r) = Some e \<and> attempt < max_attempts r \<and> alert_template w = None \<longrightarrow>
      fst (attempt_body w server pw attempt r) = Continue \<and>
      lists_same r (snd (attempt_body w server pw attempt r)) \<and>
      count_events (is_alert server) (snd (attempt_body w server pw attempt r)) =
        count_events (is_alert server) r + 1 \<and>
      count_events is_backoff (snd (attempt_body w server pw attempt r)) =
        count_events is_backoff r + 1) \<and>
   (old_passwords_item r server = Inr stored \<and> decrypt_stored w = None \<and> ssh_connect w = None \<and>
    ssh_change w = None \<and> verify_connect w = Some e \<longrightarrow>
      fst (try_body w server pw r) = (if e = AuthenticationException then None else Some e))"
  using attempt_body_no_exception[of w server pw r attempt server]
    attempt_body_exception_retry[of w server pw r e attempt]
    try_body_verify_raises[of r server stored w e pw]
  by blast

theorem retry_handling_trigger_witness:
  "fst (try_body io_verify_rejected ''h1'' ''c'' example_rotation) = None \<and>
   fst (attempt_body io_verify_rejected ''h1'' ''c'' 1 example_rotation) = Break \<and>
   count_events (is_alert ''h1'')
     (snd (attempt_body io_verify_rejected ''h1'' ''c'' 1 example_rotation)) = 0 \<and>
   count_events is_backoff
     (snd (attempt_body io_verify_rejected ''h1'' ''c'' 1 example_rotation)) = 0 \<and>
   fst (try_body io_verify_unreachable ''h1'' ''c'' example_rotation) = Some SocketError \<and>
   1 < max_attempts example_rotation \<and> alert_template io_verify_unreachable = None \<and>
   fst (attempt_body io_verify_unreachable ''h1'' ''c'' 1 example_rotation) = Continue \<and>
   lists_same example_rotation
     (snd (attempt_body io_verify_unreachable ''h1'' ''c'' 1 example_rotation)) \<and>
   count_events (is_alert ''h1'')
     (snd (attempt_body io_verify_unreachable ''h1'' ''c'' 1 example_rotation)) = 1 \<and>
   count_events is_backoff
     (snd (attempt_body io_verify_unreachable ''h1'' ''c'' 1 example_rotation)) = 1 \<and>
   old_passwords_item example_rotation ''h1'' = Inr ''c1'' \<and>
   decrypt_stored io_verify_unreachable = None \<and> ssh_connect io_verify_unreachable = None \<and>
   ssh_change io_verify_unreachable = None \<and>
   verify_connect io_verify_unreachable = Some SocketError \<and>
   decrypt_stored io_verify_rejected = None \<and> ssh_connect io_verify_rejected = None \<and>
   ssh_change io_verify_rejected = None \<and>
   verify_connect io_verify_rejected = Some AuthenticationException"
proof -
  have o: "old_passwords_item example_rotation ''h1'' = Inr ''c1''"
    by (simp add: example_rotation_def old_passwords_item_def)
  have u: "decrypt_stored io_verify_unreachable = None \<and> ssh_connect io_verify_unreachable = None \<and>
      ssh_change io_verify_unreachable = None \<and> verify_connect io_verify_unreachable = Some SocketError \<and>
      alert_template io_verify_unreachable = None"
    by (simp add: io_verify_unreachable_def io_ok_def)
  have j: "decrypt_stored io_verify_rejected = None \<and> ssh_connect io_verify_rejected = None \<and>
      ssh_change io_verify_rejected = None \<and>
      verify_connect io_verify_rejected = Some AuthenticationException"
    by (simp add: io_verify_rejected_def io_ok_def)
  have m: "1 < max_attempts example_rotation" by (simp add: example_rotation_def)
  have c: "count_events P example_rotation = 0" for P
    by (simp add: count_events_def example_rotation_def)
  from retry_handling_trigger[where w = io_verify_rejected and server = "''h1''" and pw = "''c''"
      and r = example_rotation and attempt = 1 and e = AuthenticationException
      and stored = "''c1''"]
    retry_handling_trigger[where w = io_verify_unreachable and server = "''h1''" and pw = "''c''"
      and r = example_rotation and attempt = 1 and e = SocketError and stored = "''c1''"]
    o u j m
  show ?thesis by (simp add: c)
qed

section \<open>Failures that are caught and logged\<close>

lemma same_but_file_log_refl: "same_but_file_log r r"
  by (simp add: sim_defs)

lemma thread_target_sim:
  assumes "same_but_file_log r1 r2" "\<forall>a. caught_differ (world a) (world' a)"
  shows "same_but_file_log (thread_target world args r1) (thread_target world' args r2)"
  using set_root_password_sim[OF assms, of "fst args" "snd args"]
  by (cases args) (simp add: thread_target_def)

lemma join_threads_sim:
  assumes "same_but_file_log r1 r2" "\<forall>i a. caught_differ (world i a) (world' i a)"
  shows "same_but_file_log (join_threads world ts sched r1) (join_threads world' ts sched r2)"
  using assms(1)
proof (induction sched arbitrary: r1 r2)
  case Nil
  then show ?case by (simp add: join_threads_def)
next
  case (Cons i sched)
  have s: "same_but_file_log
      (if i < length ts then thread_target (world i) (ts ! i) r1 else r1)
      (if i < length ts then thread_target (world' i) (ts ! i) r2 else r2)"
    using thread_target_sim[OF Cons.prems, of "world i" "world' i" "ts ! i"] assms(2) Cons.prems
    by simp
  from Cons.IH[OF s] show ?case by (simp add: join_threads_def)
qed

lemma send_mail_sim:
  assumes "same_but_file_log r1 r2" "report_template rw' = report_template rw"
  shows "fst (send_mail rw' r2) = fst (send_mail rw r1) \<and>
         same_but_file_log (snd (send_mail rw r1)) (snd (send_mail rw' r2))"
  using assms
  by (auto simp: send_mail_def generate_table_rows_for_mail_def log_defs sim_defs Let_def
      split: option.splits)

lemma run_sim:
  assumes "\<forall>i a. caught_differ (world i a) (world' i a)"
    "report_template rw' = report_template rw"
  shows "fst (run world' rw' sched hostnames_list r) = fst (run world rw sched hostnames_list r) \<and>
         same_but_file_log (snd (run world rw sched hostnames_list r))
                           (snd (run world' rw' sched hostnames_list r))"
  unfolding run_unfold
  by (intro send_mail_sim join_threads_sim same_but_file_log_refl assms)

lemma send_alert_mail_caught:
  "fst (send_alert_mail (w\<lparr>alert_smtp := x\<rparr>) hostname e r) = fst (send_alert_mail w hostname e r) \<and>
   lists_same r (snd (send_alert_mail w hostname e r)) \<and>
   (alert_template w = None \<longrightarrow> fst (send_alert_mail w hostname e r) = None) \<and>
   (alert_template w = None \<and> alert_smtp w = Some error \<and> hostname \<noteq> [] \<longrightarrow>
      FileLog hostname (Failed_alert_mail error) \<in> set (effects (snd (send_alert_mail w hostname e r))))"
  by (auto simp: send_alert_mail_def log_defs lists_same_def Let_def split: option.splits)

lemma send_mail_caught:
  "fst (send_mail (rw\<lparr>report_smtp := x\<rparr>) r) = fst (send_mail rw r) \<and>
   lists_same r (snd (send_mail rw r)) \<and>
   (report_template rw = None \<longrightarrow> fst (send_mail rw r) = None) \<and>
   (report_template rw = None \<and> report_smtp rw = Some error \<longrightarrow>
      FileLog ''NA'' (Failed_report_mail error) \<in> set (effects (snd (send_mail rw r))))"
  by (auto simp: send_mail_def generate_table_rows_for_mail_def log_defs lists_same_def Let_def
      split: option.splits)

lemma caught_differ_smtp: "caught_differ w (w\<lparr>alert_smtp := x\<rparr>)"
  by (simp add: caught_differ_def)

lemma caught_differ_stores: "caught_differ w (w\<lparr>db_update := u, db_history := h\<rparr>)"
  by (simp add: caught_differ_def)

text \<open>
  Claim C8, as amended. Whatever the SMTP submission of an alert or of the final report
  answers, \<^verbatim>\<open>send_alert_mail\<close> and \<^verbatim>\<open>send_mail\<close> raise exactly when they would with a
  successful submission, and leave the two lists alone; once the template is loaded they
  return normally, and a failed submission leaves its line in the file log (for an alert,
  when the hostname is not empty). Replacing the answers of the SMTP submissions in a
  whole worker, or in a whole run, changes neither what is raised nor the lists nor any
  request made to the outside world: only lines of the file log.
\<close>

theorem mail_failure_is_contained:
  "fst (send_alert_mail (w\<lparr>alert_smtp := x\<rparr>) hostname e r) = fst (send_alert_mail w hostname e r) \<and>
   lists_same r (snd (send_alert_mail w hostname e r)) \<and>
   (alert_template w = None \<longrightarrow> fst (send_alert_mail w hostname e r) = None) \<and>
   (alert_template w = None \<and> alert_smtp w = Some error \<and> hostname \<noteq> [] \<longrightarrow>
      FileLog hostname (Failed_alert_mail error)
        \<in> set (effects (snd (send_alert_mail w hostname e r)))) \<and>
   fst (send_mail (rw\<lparr>report_smtp := y\<rparr>) r) = fst (send_mail rw r) \<and>
   lists_same r (snd (send_mail rw r)) \<and>
   (report_template rw = None \<longrightarrow> fst (send_mail rw r) = None) \<and>
   (report_template rw = None \<and> report_smtp rw = Some error \<longrightarrow>
      FileLog ''NA'' (Failed_report_mail error) \<in> set (effects (snd (send_mail rw r)))) \<and>
   fst (set_root_password (\<lambda>a. (world a)\<lparr>alert_smtp := xs a\<rparr>) server pw r)
     = fst (set_root_password world server pw r) \<and>
   same_but_file_log (snd (set_root_password world server pw r))
     (snd (set_root_password (\<lambda>a. (world a)\<lparr>alert_smtp := xs a\<rparr>) server pw r)) \<and>
   fst (run (\<lambda>i a. (worlds i a)\<lparr>alert_smtp := xss i a\<rparr>) (rw\<lparr>report_smtp := y\<rparr>)
          sched hostnames_list r)
     = fst (run worlds rw sched hostnames_list r) \<and>
   same_but_file_log (snd (run worlds rw sched hostnames_list r))
     (snd (run (\<lambda>i a. (worlds i a)\<lparr>alert_smtp := xss i a\<rparr>) (rw\<lparr>report_smtp := y\<rparr>)
            sched hostnames_list r))"
proof -
  have w: "fst (set_root_password (\<lambda>a. (world a)\<lparr>alert_smtp := xs a\<rparr>) server pw r)
     = fst (set_root_password world server pw r) \<and>
   same_but_file_log (snd (set_root_password world server pw r))
     (snd (set_root_password (\<lambda>a. (world a)\<lparr>alert_smtp := xs a\<rparr>) server pw r))"
    by (intro set_root_password_sim same_but_file_log_refl) (simp add: caught_differ_smtp)
  have b: "fst (run (\<lambda>i a. (worlds i a)\<lparr>alert_smtp := xss i a\<rparr>) (rw\<lparr>report_smtp := y\<rparr>)
          sched hostnames_list r)
     = fst (run worlds rw sched hostnames_list r) \<and>
   same_but_file_log (snd (run worlds rw sched hostnames_list r))
     (snd (run (\<lambda>i a. (worlds i a)\<lparr>alert_smtp := xss i a\<rparr>) (rw\<lparr>report_smtp := y\<rparr>)
            sched hostnames_list r))"
    by (intro run_sim) (simp_all add: caught_differ_smtp)
  from send_alert_mail_caught[where w = w and x = x and hostname = hostname and e = e and r = r
      and error = error]
    send_mail_caught[where rw = rw and x = y and r = r and error = error] w b
  show ?thesis by blast
qed

theorem mail_failure_is_contained_witness:
  "alert_template io_smtp_down = None \<and> alert_smtp io_smtp_down = Some SMTPException \<and>
   fst (send_alert_mail io_smtp_down ''h1'' SocketError example_rotation) = None \<and>
   lists_same example_rotation (snd (send_alert_mail io_smtp_down ''h1'' SocketError example_rotation)) \<and>
   FileLog ''h1'' (Failed_alert_mail SMTPException)
     \<in> set (effects (snd (send_alert_mail io_smtp_down ''h1'' SocketError example_rotation))) \<and>
   report_template report_smtp_down = None \<and> report_smtp report_smtp_down = Some SMTPException \<and>
   fst (send_mail report_smtp_down example_rotation) = None \<and>
   lists_same example_rotation (snd (send_mail report_smtp_down example_rotation)) \<and>
   FileLog ''NA'' (Failed_report_mail SMTPException)
     \<in> set (effects (snd (send_mail report_smtp_down example_rotation))) \<and>
   fst (set_root_password (\<lambda>a. io_connect_refused\<lparr>alert_smtp := Some SMTPException\<rparr>)
          ''h1'' ''c'' example_rotation)
     = fst (set_root_password (\<lambda>a. io_connect_refused) ''h1'' ''c'' example_rotation) \<and>
   same_but_file_log (snd (set_root_password (\<lambda>a. io_connect_refused) ''h1'' ''c'' example_rotation))
     (snd (set_root_password
            (\<lambda>a. io_connect_refused\<lparr>alert_smtp := Some SMTPException\<rparr>)
            ''h1'' ''c'' example_rotation)) \<and>
   fst (run (\<lambda>i a. (world_second_refused i a)\<lparr>alert_smtp := Some SMTPException\<rparr>)
          (report_smtp_down\<lparr>report_smtp := Some SMTPException\<rparr>) [1, 0] [''h1'', ''h2'']
          example_rotation)
     = fst (run world_second_refused report_smtp_down [1, 0] [''h1'', ''h2''] example_rotation) \<and>
   same_but_file_log
     (snd (run world_second_refused report_smtp_down [1, 0] [''h1'', ''h2''] example_rotation))
     (snd (run (\<lambda>i a. (world_second_refused i a)\<lparr>alert_smtp := Some SMTPException\<rparr>)
          (report_smtp_down\<lparr>report_smtp := Some SMTPException\<rparr>) [1, 0] [''h1'', ''h2'']
          example_rotation))"
proof -
  have a: "alert_template io_smtp_down = None \<and> alert_smtp io_smtp_down = Some SMTPException"
    by (simp add: io_smtp_down_def io_connect_refused_def io_ok_def)
  have b: "report_template report_smtp_down = None \<and>
      report_smtp report_smtp_down = Some SMTPException"
    by (simp add: report_smtp_down_def)
  from mail_failure_is_contained[where w = io_smtp_down and x = None and hostname = "''h1''"
      and e = SocketError and r = example_rotation and error = SMTPException
      and rw = report_smtp_down and y = "Some SMTPException"
      and world = "\<lambda>a. io_connect_refused" and xs = "\<lambda>a. Some SMTPException"
      and server = "''h1''" and pw = "''c''"
      and worlds = world_second_refused and xss = "\<lambda>i a. Some SMTPException"
      and sched = "[1, 0]" and hostnames_list = "[''h1'', ''h2'']"] a b
  show ?thesis by simp
qed

text \<open>
  Claim C7, as amended. In an attempt in which the stored password is found and decrypted,
  the connection and the change succeed, the verifying login succeeds and
  \<^verbatim>\<open>credential_encrypter\<close> returns, the worker appends the host to the success list and
  stops, whatever attempts remain and whatever the two inserts answer: no alert, no
  backoff, no further connection, the failure list unchanged, and a failed insert leaves
  its line in the file log. In the first attempt this is the whole of
  \<^verbatim>\<open>set_root_password\<close>. And replacing the answers of the two inserts in any worker changes
  neither what it raises nor the lists nor any request: only lines of the file log.
\<close>

theorem persistence_failure_keeps_success:
  assumes "old_passwords_item r server = Inr stored"
    and "decrypt_stored (world attempt) = None" and "ssh_connect (world attempt) = None"
    and "ssh_change (world attempt) = None" and "verify_connect (world attempt) = None"
    and "encrypt_new (world attempt) = None"
  shows "(\<exists>r'. (\<forall>rest. attempts_loop world server pw (attempt # rest) r = (None, r')) \<and>
      (attempt = 1 \<and> 1 \<le> max_attempts r \<longrightarrow>
         set_root_password world server pw r = (None, r')) \<and>
      password_change_success_host_list r' = password_change_success_host_list r @ [server] \<and>
      password_change_fail_host_list r' = password_change_fail_host_list r \<and>
      count_events (is_connect_stored server) r' = count_events (is_connect_stored server) r + 1 \<and>
      count_events (is_close server) r' = count_events (is_close server) r + 1 \<and>
      count_events (is_alert server) r' = count_events (is_alert server) r \<and>
      count_events is_backoff r' = count_events is_backoff r \<and>
      (\<forall>e. db_update (world attempt) = Some e \<longrightarrow>
         FileLog ''NA'' (Failed_update_database server e) \<in> set (effects r')) \<and>
      (\<forall>e. db_history (world attempt) = Some e \<longrightarrow>
         FileLog ''NA'' (Failed_store_history e) \<in> set (effects r'))) \<and>
   fst (set_root_password (\<lambda>a. (world a)\<lparr>db_update := u a, db_history := h a\<rparr>) server pw r)
     = fst (set_root_password world server pw r) \<and>
   same_but_file_log (snd (set_root_password world server pw r))
     (snd (set_root_password (\<lambda>a. (world a)\<lparr>db_update := u a, db_history := h a\<rparr>) server pw r))"
proof -
  have ind: "fst (set_root_password (\<lambda>a. (world a)\<lparr>db_update := u a, db_history := h a\<rparr>) server pw r)
     = fst (set_root_password world server pw r) \<and>
   same_but_file_log (snd (set_root_password world server pw r))
     (snd (set_root_password (\<lambda>a. (world a)\<lparr>db_update := u a, db_history := h a\<rparr>) server pw r))"
    by (intro set_root_password_sim same_but_file_log_refl) (simp add: caught_differ_stores)
  from attempt_body_verified[OF assms, of pw attempt]
  obtain r' where r': "attempt_body (world attempt) server pw attempt r = (Break, r')"
      "password_change_success_host_list r' = password_change_success_host_list r @ [server]"
      "password_change_fail_host_list r' = password_change_fail_host_list r"
      "count_events (is_connect_stored server) r' = count_events (is_connect_stored server) r + 1"
      "count_events (is_close server) r' = count_events (is_close server) r + 1"
      "count_events (is_alert server) r' = count_events (is_alert server) r"
      "count_events is_backoff r' = count_events is_backoff r"
      "\<forall>e. db_update (world attempt) = Some e \<longrightarrow>
         FileLog ''NA'' (Failed_update_database server e) \<in> set (effects r')"
      "\<forall>e. db_history (world attempt) = Some e \<longrightarrow>
         FileLog ''NA'' (Failed_store_history e) \<in> set (effects r')"
    by blast
  have s: "attempt = 1 \<and> 1 \<le> max_attempts r \<longrightarrow> set_root_password world server pw r = (None, r')"
    using r'(1) by (auto simp: set_root_password_def upto_first)
  have l: "\<forall>rest. attempts_loop world server pw (attempt # rest) r = (None, r')"
    using r'(1) by simp
  from l s r'(2-) have "\<exists>r'. (\<forall>rest. attempts_loop world server pw (attempt # rest) r = (None, r')) \<and>
      (attempt = 1 \<and> 1 \<le> max_attempts r \<longrightarrow>
         set_root_password world server pw r = (None, r')) \<and>
      password_change_success_host_list r' = password_change_success_host_list r @ [server] \<and>
      password_change_fail_host_list r' = password_change_fail_host_list r \<and>
      count_events (is_connect_stored server) r' = count_events (is_connect_stored server) r + 1 \<and>
      count_events (is_close server) r' = count_events (is_close server) r + 1 \<and>
      count_events (is_alert server) r' = count_events (is_alert server) r \<and>
      count_events is_backoff r' = count_events is_backoff r \<and>
      (\<forall>e. db_update (world attempt) = Some e \<longrightarrow>
         FileLog ''NA'' (Failed_update_database server e) \<in> set (effects r')) \<and>
      (\<forall>e. db_history (world attempt) = Some e \<longrightarrow>
         FileLog ''NA'' (Failed_store_history e) \<in> set (effects r'))"
    by (intro exI[of _ r'] conjI)
  with ind show ?thesis by (intro conjI) simp_all
qed

theorem persistence_failure_keeps_success_witness:
  "old_passwords_item example_rotation ''h1'' = Inr ''c1'' \<and>
   decrypt_stored io_stores_down = None \<and> ssh_connect io_stores_down = None \<and>
   ssh_change io_stores_down = None \<and> verify_connect io_stores_down = None \<and>
   encrypt_new io_stores_down = None \<and>
   db_update io_stores_down = Some OperationalError \<and>
   db_history io_stores_down = Some OperationalError \<and>
   1 \<le> max_attempts example_rotation \<and>
   (\<exists>r'. (\<forall>rest. attempts_loop (\<lambda>a. io_stores_down) ''h1'' ''c'' (1 # rest) example_rotation
              = (None, r')) \<and>
      set_root_password (\<lambda>a. io_stores_down) ''h1'' ''c'' example_rotation = (None, r') \<and>
      password_change_success_host_list r' = [''h1''] \<and>
      password_change_fail_host_list r' = [] \<and>
      count_events (is_connect_stored ''h1'') r' = 1 \<and>
      count_events (is_close ''h1'') r' = 1 \<and>
      count_events (is_alert ''h1'') r' = 0 \<and>
      count_events is_backoff r' = 0 \<and>
      FileLog ''NA'' (Failed_update_database ''h1'' OperationalError) \<in> set (effects r') \<and>
      FileLog ''NA'' (Failed_store_history OperationalError) \<in> set (effects r'))"
proof -
  have h1: "1 \<le> max_attempts example_rotation" by (simp add: example_rotation_def)
  have h2: "old_passwords_item example_rotation ''h1'' = Inr ''c1''"
    by (simp add: example_rotation_def old_passwords_item_def)
  have w: "decrypt_stored io_stores_down = None" "ssh_connect io_stores_down = None"
    "ssh_change io_stores_down = None" "verify_connect io_stores_down = None"
    "encrypt_new io_stores_down = None"
    by (simp_all add: io_stores_down_def io_ok_def)
  have d: "db_update io_stores_down = Some OperationalError"
    "db_history io_stores_down = Some OperationalError"
    by (simp_all add: io_stores_down_def io_ok_def)
  have c: "count_events P example_rotation = 0" for P
    by (simp add: count_events_def example_rotation_def)
  have l: "password_change_fail_host_list example_rotation = []"
    "password_change_success_host_list example_rotation = []"
    by (simp_all add: example_rotation_def)
  from persistence_failure_keeps_success[where world = "\<lambda>a. io_stores_down" and attempt = 1
      and pw = "''c''" and r = example_rotation and server = "''h1''" and stored = "''c1''",
      OF h2 w]
  obtain r' where r':
      "\<forall>rest. attempts_loop (\<lambda>a. io_stores_down) ''h1'' ''c'' (1 # rest) example_rotation
         = (None, r')"
      "(1::int) = 1 \<and> 1 \<le> max_attempts example_rotation \<longrightarrow>
         set_root_password (\<lambda>a. io_stores_down) ''h1'' ''c'' example_rotation = (None, r')"
      "password_change_success_host_list r' = password_change_success_host_list example_rotation @ [''h1'']"
      "password_change_fail_host_list r' = password_change_fail_host_list example_rotation"
      "count_events (is_connect_stored ''h1'') r' =
         count_events (is_connect_stored ''h1'') example_rotation + 1"
      "count_events (is_close ''h1'') r' = count_events (is_close ''h1'') example_rotation + 1"
      "count_events (is_alert ''h1'') r' = count_events (is_alert ''h1'') example_rotation"
      "count_events is_backoff r' = count_events is_backoff example_rotation"
      "\<forall>e. db_update io_stores_down = Some e \<longrightarrow>
         FileLog ''NA'' (Failed_update_database ''h1'' e) \<in> set (effects r')"
      "\<forall>e. db_history io_stores_down = Some e \<longrightarrow>
         FileLog ''NA'' (Failed_store_history e) \<in> set (effects r')"
    by blast
  from r' h1 d have "(\<forall>rest. attempts_loop (\<lambda>a. io_stores_down) ''h1'' ''c'' (1 # rest) example_rotation
              = (None, r')) \<and>
      set_root_password (\<lambda>a. io_stores_down) ''h1'' ''c'' example_rotation = (None, r') \<and>
      password_change_success_host_list r' = [''h1''] \<and>
      password_change_fail_host_list r' = [] \<and>
      count_events (is_connect_stored ''h1'') r' = 1 \<and>
      count_events (is_close ''h1'') r' = 1 \<and>
      count_events (is_alert ''h1'') r' = 0 \<and>
      count_events is_backoff r' = 0 \<and>
      FileLog ''NA'' (Failed_update_database ''h1'' OperationalError) \<in> set (effects r') \<and>
      FileLog ''NA'' (Failed_store_history OperationalError) \<in> set (effects r')"
    by (simp add: c l del: attempts_loop.simps)
  then have "\<exists>r'. (\<forall>rest. attempts_loop (\<lambda>a. io_stores_down) ''h1'' ''c'' (1 # rest) example_rotation
              = (None, r')) \<and>
      set_root_password (\<lambda>a. io_stores_down) ''h1'' ''c'' example_rotation = (None, r') \<and>
      password_change_success_host_list r' = [''h1''] \<and>
      password_change_fail_host_list r' = [] \<and>
      count_events (is_connect_stored ''h1'') r' = 1 \<and>
      count_events (is_close ''h1'') r' = 1 \<and>
      count_events (is_alert ''h1'') r' = 0 \<and>
      count_events is_backoff r' = 0 \<and>
      FileLog ''NA'' (Failed_update_database ''h1'' OperationalError) \<in> set (effects r') \<and>
      FileLog ''NA'' (Failed_store_history OperationalError) \<in> set (effects r')"
    by (rule exI)
  with h1 h2 w d show ?thesis by blast
qed


section \<open>Inputs at which claims fail as stated\<close>

lemmas eval_defs = set_root_password_def example_rotation_def upto_1_3
  attempt_body_def try_body_def except_handler_def send_alert_mail_def verify_server_login_def
  update_password_to_database_def store_password_history_def old_passwords_item_def
  io_ok_def log_defs count_events_def Let_def


text \<open>
  Claim C7 as stated fails when \<^verbatim>\<open>credential_encrypter\<close> raises:
  \<^verbatim>\<open>update_password_to_database\<close> calls it before its \<^verbatim>\<open>try\<close>, so after a successful
  verification the exception reaches the handler of \<^verbatim>\<open>set_root_password\<close>. The host is
  retried and ends in the failure list, after three connections and two alerts.
\<close>

theorem encryption_failure_after_verification:
  "verify_connect io_encrypt_fails = None \<and> encrypt_new io_encrypt_fails = Some CryptoError \<and>
   fst (set_root_password world_encrypt_fails ''h1'' ''c'' example_rotation) = None \<and>
   password_change_success_host_list
     (snd (set_root_password world_encrypt_fails ''h1'' ''c'' example_rotation)) = [] \<and>
   password_change_fail_host_list
     (snd (set_root_password world_encrypt_fails ''h1'' ''c'' example_rotation)) = [''h1''] \<and>
   count_events (is_connect_stored ''h1'')
     (snd (set_root_password world_encrypt_fails ''h1'' ''c'' example_rotation)) = 3 \<and>
   count_events (is_alert ''h1'')
     (snd (set_root_password world_encrypt_fails ''h1'' ''c'' example_rotation)) = 2"
  by (simp add: eval_defs world_encrypt_fails_def io_encrypt_fails_def)

text \<open>
  Claim C8 as stated fails when a mail template cannot be read: both \<^verbatim>\<open>send_alert_mail\<close>
  and \<^verbatim>\<open>send_mail\<close> raise, and the worker whose alert raised ends with its host in
  neither list. And for an empty hostname the failed submission of an alert leaves no line
  in the file log.
\<close>

theorem mail_template_failure_propagates:
  "fst (send_alert_mail io_template_missing ''h1'' SocketError example_rotation)
     = Some FileNotFoundError \<and>
   fst (send_mail report_template_missing example_rotation) = Some FileNotFoundError \<and>
   fst (set_root_password world_template_missing ''h1'' ''c'' example_rotation)
     = Some FileNotFoundError \<and>
   password_change_success_host_list
     (snd (set_root_password world_template_missing ''h1'' ''c'' example_rotation)) = [] \<and>
   password_change_fail_host_list
     (snd (set_root_password world_template_missing ''h1'' ''c'' example_rotation)) = [] \<and>
   alert_template io_smtp_down = None \<and> alert_smtp io_smtp_down = Some SMTPException \<and>
   effects (snd (send_alert_mail io_smtp_down [] SocketError example_rotation))
     = [SmtpSubmit (AlertMail [] SocketError)]"
  by (simp add: eval_defs world_template_missing_def io_template_missing_def
      io_connect_refused_def send_mail_def report_template_missing_def io_smtp_down_def)


end
